theory Spec2Isabelle
  imports Main "HOL-Library.Sublist" "HOL-Library.Code_Target_Numeral"
begin

text \<open>
  A shallow embedding of the OneBot v11 channel plugin. The segment codec and the
  outbound RPC helpers are the module that the plugin entry imports as \<open>./src/api.js\<close>
  (in the source tree it follows the plugin object in \<open>src/src/channel.ts\<close>); the inbound
  pipeline, the reply callback and the webhook handler are the plugin entry \<open>index.ts\<close>
  (it follows the documentation in \<open>src/README.md\<close>); the data types are \<open>types.ts\<close>.
  Definitions keep the names of the source. The sections of definitions come first, the
  properties after them.
\<close>

section \<open>Strings and JavaScript built-ins\<close>

text \<open>
  A JavaScript string is a sequence of UTF-16 code units; \<open>length\<close>, \<open>slice\<close>,
  \<open>startsWith\<close> and the regular expressions of the source (none has the \<open>u\<close> flag) all
  count and compare code units. A string is therefore modelled as a list of code units, each
  a natural number below 65536. The numbers of the source are IEEE doubles. The ones met
  here (ids, sizes) come from integer literals, and an integer stands for the double that
  its literal denotes: it is rounded to the nearest double where it is read (\<open>to_number\<close>)
  and printed the way \<open>Number::toString\<close> prints that double. A number with a fraction is
  outside the types used here.
\<close>

type_synonym ustring = "nat list"

definition asc :: "string \<Rightarrow> ustring" where
  \<comment> \<open>an ASCII literal of the source\<close>
  "asc s = map of_char s"

definition js_space :: "nat \<Rightarrow> bool" where
  \<comment> \<open>the regular expression class \<open>\s\<close>, which is also what \<open>String.prototype.trim\<close> removes:
      WhiteSpace and LineTerminator of ECMAScript\<close>
  "js_space c \<longleftrightarrow>
     c \<in> {9, 10, 11, 12, 13, 32, 160, 5760, 8232, 8233, 8239, 8287, 12288, 65279}
     \<or> (8192 \<le> c \<and> c \<le> 8202)"

definition trim :: "ustring \<Rightarrow> ustring" where
  "trim s = rev (dropWhile js_space (rev (dropWhile js_space s)))"

definition is_digit :: "nat \<Rightarrow> bool" where
  \<comment> \<open>the class \<open>\d\<close> without the \<open>u\<close> flag: ASCII digits\<close>
  "is_digit c \<longleftrightarrow> 48 \<le> c \<and> c \<le> 57"

fun show_nat :: "nat \<Rightarrow> ustring" where
  "show_nat n = (if n < 10 then [48 + n] else show_nat (n div 10) @ [48 + n mod 10])"

declare show_nat.simps [simp del]

fun bit_length :: "nat \<Rightarrow> nat" where
  \<comment> \<open>the number of binary digits of a natural number\<close>
  "bit_length n = (if n = 0 then 0 else Suc (bit_length (n div 2)))"

declare bit_length.simps [simp del]

definition to_double :: "nat \<Rightarrow> nat option" where
  \<comment> \<open>the IEEE 754 double nearest to a natural number (ties to the even significand of 53
      bits), \<open>None\<close> when that is infinity; naturals below \<open>2^53\<close> are doubles themselves\<close>
  "to_double n =
     (if n < 9007199254740992 then Some n
      else (let e = bit_length n - 53;
                q = n div 2 ^ e;
                r = n mod 2 ^ e;
                h = 2 ^ (e - 1);
                v = (if h < r \<or> (r = h \<and> odd q) then q + 1 else q) * 2 ^ e
            in if 2 ^ 1024 \<le> v then None else Some v))"

datatype js_number =
    NaN
  | Finite int      \<comment> \<open>an integral number\<close>
  | PlusInfinity
  | MinusInfinity

definition to_number :: "int \<Rightarrow> js_number" where
  \<comment> \<open>the Number that a decimal integer literal, a JSON integer or the digits read by
      \<open>parseInt\<close> denote: the nearest double\<close>
  "to_number i =
     (case to_double (nat \<bar>i\<bar>) of
        None \<Rightarrow> if i < 0 then MinusInfinity else PlusInfinity
      | Some v \<Rightarrow> Finite (if i < 0 then - int v else int v))"

definition decimal_candidate :: "nat \<Rightarrow> nat \<Rightarrow> nat option" where
  \<comment> \<open>among the two multiples of \<open>10^e\<close> around \<open>x\<close>, one that reads back as the double \<open>x\<close>:
      the closer one if both do, the one with the even multiplier if they are equally close\<close>
  "decimal_candidate x e =
     (let lo = (x div 10 ^ e) * 10 ^ e;
          hi = lo + 10 ^ e;
          lo_ok = (to_double lo = Some x);
          hi_ok = (to_double hi = Some x)
      in if lo_ok \<and> hi_ok then
           (if x - lo < hi - x then Some lo
            else if hi - x < x - lo then Some hi
            else if even (x div 10 ^ e) then Some lo else Some hi)
         else if lo_ok then Some lo
         else if hi_ok then Some hi
         else None)"

fun shortest_decimal :: "nat \<Rightarrow> nat \<Rightarrow> nat" where
  \<comment> \<open>the decimal with the fewest significant digits that reads back as the double \<open>x\<close>,
      searched from multiples of \<open>10^e\<close> down to multiples of 1\<close>
  "shortest_decimal x 0 = (case decimal_candidate x 0 of Some c \<Rightarrow> c | None \<Rightarrow> x)"
| "shortest_decimal x (Suc e) =
     (case decimal_candidate x (Suc e) of Some c \<Rightarrow> c | None \<Rightarrow> shortest_decimal x e)"

definition double_to_string :: "nat \<Rightarrow> ustring" where
  \<comment> \<open>\<open>Number::toString\<close> of a non-negative integral double: below \<open>2^53\<close> its decimal
      digits; from there on the shortest decimal that reads back as it, written out when it
      has at most 21 digits and in exponent form otherwise\<close>
  "double_to_string x =
     (if x < 9007199254740992 then show_nat x
      else (let ds = show_nat (shortest_decimal x (length (show_nat x)));
                n = length ds
            in if n \<le> 21 then ds
               else (case rev (dropWhile (\<lambda>d. d = 48) (rev ds)) of
                       [] \<Rightarrow> ds
                     | d # rest \<Rightarrow>
                         d # (if rest = [] then [] else 46 # rest)
                         @ [101, 43] @ show_nat (n - 1))))"

definition number_to_string :: "js_number \<Rightarrow> ustring" where
  \<comment> \<open>\<open>String(n)\<close>, which is also how a template literal prints a number\<close>
  "number_to_string n =
     (case n of
        NaN \<Rightarrow> asc ''NaN''
      | PlusInfinity \<Rightarrow> asc ''Infinity''
      | MinusInfinity \<Rightarrow> asc ''-Infinity''
      | Finite i \<Rightarrow> if i < 0 then 45 # double_to_string (nat (- i)) else double_to_string (nat i))"

definition show_int :: "int \<Rightarrow> ustring" where
  \<comment> \<open>\<open>String(n)\<close> of the number that the integer \<open>i\<close> denotes\<close>
  "show_int i = number_to_string (to_number i)"

definition digits_value :: "ustring \<Rightarrow> nat" where
  "digits_value ds = foldl (\<lambda>a d. 10 * a + (d - 48)) 0 ds"

definition parseInt10 :: "ustring \<Rightarrow> js_number" where
  \<comment> \<open>\<open>parseInt(s, 10)\<close>: leading white space, a sign, then the longest run of digits, read as
      the nearest double; \<open>NaN\<close> without a digit\<close>
  "parseInt10 s =
     (let t = dropWhile js_space s;
          neg = (case t of [] \<Rightarrow> False | c # _ \<Rightarrow> c = 45);
          r = (case t of [] \<Rightarrow> [] | c # r' \<Rightarrow> if c = 45 \<or> c = 43 then r' else t);
          ds = takeWhile is_digit r
      in if ds = [] then NaN
         else to_number (if neg then - int (digits_value ds) else int (digits_value ds)))"

fun strip_prefix :: "'a list \<Rightarrow> 'a list \<Rightarrow> 'a list option" where
  \<comment> \<open>\<open>s.startsWith(p)\<close>, returning what follows the prefix\<close>
  "strip_prefix [] s = Some s"
| "strip_prefix (p # ps) [] = None"
| "strip_prefix (p # ps) (c # cs) = (if p = c then strip_prefix ps cs else None)"

definition startsWith :: "ustring \<Rightarrow> ustring \<Rightarrow> bool" where
  "startsWith s p \<longleftrightarrow> strip_prefix p s \<noteq> None"

fun join :: "ustring \<Rightarrow> ustring list \<Rightarrow> ustring" where
  \<comment> \<open>\<open>Array.prototype.join\<close>\<close>
  "join sep [] = []"
| "join sep [x] = x"
| "join sep (x # y # ys) = x @ sep @ join sep (y # ys)"

subsection \<open>Plain objects used as dictionaries\<close>

text \<open>
  The source keeps its tables in plain objects (\<open>{}\<close> or an object literal). Reading
  \<open>obj[key]\<close> from such an object finds the object's own property or, failing that, the
  member of \<open>Object.prototype\<close> of that name; \<open>key in obj\<close> looks in both places as well.
\<close>

definition object_prototype_keys :: "ustring list" where
  "object_prototype_keys =
     [asc ''constructor'', asc ''__defineGetter__'', asc ''__defineSetter__'',
      asc ''hasOwnProperty'', asc ''__lookupGetter__'', asc ''__lookupSetter__'',
      asc ''isPrototypeOf'', asc ''propertyIsEnumerable'', asc ''toString'',
      asc ''valueOf'', asc ''__proto__'', asc ''toLocaleString'']"

datatype 'v js_prop = Own 'v | Inherited | Undefined

definition obj_get :: "(ustring \<rightharpoonup> 'v) \<Rightarrow> ustring \<Rightarrow> 'v js_prop" where
  "obj_get m k =
     (case m k of Some v \<Rightarrow> Own v
      | None \<Rightarrow> if k \<in> set object_prototype_keys then Inherited else Undefined)"

definition obj_has :: "(ustring \<rightharpoonup> 'v) \<Rightarrow> ustring \<Rightarrow> bool" where
  \<comment> \<open>\<open>k in m\<close>\<close>
  "obj_has m k \<longleftrightarrow> obj_get m k \<noteq> Undefined"

definition inherited_to_string :: "ustring \<Rightarrow> ustring" where
  \<comment> \<open>\<open>String(Object.prototype[k])\<close> for \<open>k\<close> among \<open>object_prototype_keys\<close>: every member is
      a built-in function, except \<open>__proto__\<close>, which reads as \<open>Object.prototype\<close> itself\<close>
  "inherited_to_string k =
     (if k = asc ''__proto__'' then asc ''[object Object]''
      else asc ''function '' @ (if k = asc ''constructor'' then asc ''Object'' else k)
           @ asc ''() { [native code] }'')"

section \<open>Message segments (types.ts)\<close>

datatype face_id =
    IdNum int          \<comment> \<open>\<open>id\<close> is the number that this integer denotes\<close>
  | IdInfinity         \<comment> \<open>\<open>id\<close> is the number \<open>Infinity\<close>\<close>
  | IdStr ustring      \<comment> \<open>\<open>id\<close> is a string\<close>
  | IdAbsent           \<comment> \<open>\<open>id\<close> is undefined\<close>
  | IdInherited ustring \<comment> \<open>\<open>id\<close> is the member of \<open>Object.prototype\<close> of that name\<close>

datatype OneBotMessage =
    SegText ustring                                \<comment> \<open>\<open>text: {text}\<close>\<close>
  | SegFace face_id                                \<comment> \<open>\<open>face: {id}\<close>\<close>
  | SegImage ustring "ustring option"              \<comment> \<open>\<open>image: {file, url?}\<close>\<close>
  | SegRecord ustring "ustring option"             \<comment> \<open>\<open>record: {file, url?}\<close>\<close>
  | SegVideo ustring "ustring option"              \<comment> \<open>\<open>video: {file, url?}\<close>\<close>
  | SegAt ustring                                  \<comment> \<open>\<open>at: {qq}\<close>\<close>
  | SegReply ustring                               \<comment> \<open>\<open>reply: {id}\<close>\<close>
  | SegFile "ustring option" "ustring option" "ustring option" "int option"
                                                   \<comment> \<open>\<open>file: {file?, url?, name?, size?}\<close>\<close>
  | SegMface "ustring option" "ustring option" "ustring option"
                                                   \<comment> \<open>\<open>mface: {url?, emoji_id?, summary?}\<close>\<close>
  | SegOther ustring                               \<comment> \<open>any other \<open>type\<close> (forward, json, xml, ...)\<close>

definition truthy_str :: "ustring option \<Rightarrow> bool" where
  \<comment> \<open>truthiness of an optional string: defined and not empty\<close>
  "truthy_str s \<longleftrightarrow> (case s of None \<Rightarrow> False | Some t \<Rightarrow> t \<noteq> [])"

definition or_str :: "ustring option \<Rightarrow> ustring option \<Rightarrow> ustring option" where
  \<comment> \<open>\<open>a || b\<close> on optional strings\<close>
  "or_str a b = (if truthy_str a then a else b)"

section \<open>Segment codec (api.ts)\<close>

subsection \<open>The face tables\<close>

definition QQ_FACE_MAP_entries :: "(nat \<times> ustring) list" where
  \<comment> \<open>the object literal \<open>QQ_FACE_MAP\<close>, each name as its code units, in the order of
      \<open>Object.entries\<close> (ascending integer keys, which is also the order of the literal)\<close>
  "QQ_FACE_MAP_entries = [
    (0, [24778, 35766]), (1, [25735, 22068]), (2, [33394]), (3, [21457, 21574]),
    (4, [24471, 24847]), (5, [27969, 27882]), (6, [23475, 32670]), (7, [38381, 22068]),
    (8, [30561]), (9, [22823, 21741]), (10, [23604, 23596]), (11, [21457, 24594]),
    (12, [35843, 30382]), (13, [21618, 29273]), (14, [24494, 31505]), (15, [38590, 36807]),
    (16, [37239]), (17, [38750, 20856]), (18, [25235, 29378]), (19, [21520]),
    (20, [20599, 31505]), (21, [21487, 29233]), (22, [30333, 30524]), (23, [20658, 24930]),
    (24, [39269, 39295]), (25, [22256]), (26, [24778, 24656]), (27, [27969, 27735]),
    (28, [25000, 31505]), (29, [24736, 38386]), (30, [22859, 26007]), (31, [21650, 39554]),
    (32, [30097, 38382]), (33, [22040]), (34, [26197]), (35, [25240, 30952]), (36, [34928]),
    (37, [39607, 39621]), (38, [25970, 25171]), (39, [20877, 35265]), (40, [21457, 25238]),
    (41, [29233, 24773]), (42, [36339, 36339]), (43, [29482, 22836]), (44, [25317, 25265]),
    (45, [34507, 31957]), (46, [38378, 30005]), (47, [28856, 24377]), (48, [20992]),
    (49, [36275, 29699]), (50, [20415, 20415]), (51, [21654, 21857]), (52, [39277]),
    (53, [34507, 31957]), (54, [38378, 30005]), (55, [28856, 24377]), (56, [20992]),
    (57, [36275, 29699]), (58, [29922, 34411]), (59, [20415, 20415]), (60, [21654, 21857]),
    (61, [39277]), (62, [29611, 29808]), (63, [20939, 35874]), (64, [31034, 29233]),
    (65, [29233, 24515]), (66, [24515, 30862]), (67, [24515, 30862]), (68, [34507, 31957]),
    (69, [31036, 29289]), (70, [38378, 30005]), (71, [28856, 24377]), (72, [20992]),
    (73, [36275, 29699]), (74, [22826, 38451]), (75, [26376, 20142]), (76, [36190]),
    (77, [36393]), (78, [25569, 25163]), (79, [32988, 21033]), (80, [25265, 25331]),
    (81, [21246, 24341]), (82, [25331, 22836]), (83, [24046, 21170]), (84, [29233, 20320]),
    (85, [39134, 21563]), (86, [24580, 28779]), (87, [78, 79]), (88, [79, 75]),
    (89, [35199, 29916]), (90, [29233, 24773]), (91, [39134, 21563]), (92, [36339, 36339]),
    (93, [21457, 25238]), (94, [24580, 28779]), (95, [36716, 22280]), (96, [20919, 27735]),
    (97, [25830, 27735]), (98, [25248, 40763]), (99, [40723, 25484]),
    (100, [31959, 22823, 20102]), (101, [22351, 31505]), (102, [24038, 21756, 21756]),
    (103, [21491, 21756, 21756]), (104, [21704, 27424]), (105, [37145, 35270]),
    (106, [22996, 23624]), (107, [24555, 21741, 20102]), (108, [38452, 38505]),
    (109, [20146, 20146]), (110, [21523]), (111, [21487, 24604]), (112, [33756, 20992]),
    (113, [21860, 37202]), (114, [31726, 29699]), (115, [20050, 20051]), (116, [21654, 21857]),
    (117, [39277]), (118, [29482, 22836]), (119, [29611, 29808]), (120, [20939, 35874]),
    (121, [31034, 29233]), (122, [29233, 24515]), (123, [24515, 30862]), (124, [34507, 31957]),
    (125, [38378, 30005]), (126, [28856, 24377]), (127, [20992]), (128, [36275, 29699]),
    (129, [29922, 34411]), (130, [20415, 20415]), (131, [26376, 20142]), (132, [22826, 38451]),
    (133, [31036, 29289]), (134, [25317, 25265]), (135, [36190]), (136, [36393]),
    (137, [25569, 25163]), (138, [32988, 21033]), (139, [25265, 25331]), (140, [21246, 24341]),
    (141, [25331, 22836]), (142, [24046, 21170]), (143, [29233, 20320]), (144, [78, 79]),
    (145, [79, 75]), (146, [29233, 24773]), (147, [39134, 21563]), (148, [36339, 36339]),
    (149, [21457, 25238]), (150, [24580, 28779]), (151, [36716, 22280]), (152, [30933, 22836]),
    (153, [22238, 22836]), (154, [36339, 32499]), (155, [25381, 25163]), (156, [28608, 21160]),
    (157, [34903, 33310]), (158, [29486, 21563]), (159, [24038, 22826, 26497]),
    (160, [21491, 22826, 26497]), (161, [21452, 21916]), (162, [38829, 28846]),
    (163, [28783, 31548]), (164, [21457, 36130]), (165, [75, 27468]), (166, [36141, 29289]),
    (167, [37038, 20214]), (168, [24069]), (169, [21917, 24425]), (170, [31048, 31095]),
    (171, [29190, 31563]), (172, [26834, 26834, 31958]), (173, [21917, 22902]),
    (174, [19979, 38754]), (175, [39321, 34121]), (176, [39134, 26426]), (177, [24320, 36710]),
    (178, [24038, 36710, 22836]), (179, [36710, 21410]), (180, [21491, 36710, 22836]),
    (181, [22810, 20113]), (182, [19979, 38632]), (183, [38046, 31080]), (184, [29066, 29483]),
    (185, [28783, 27873]), (186, [39118, 36710]), (187, [38393, 38047]), (188, [25171, 20254]),
    (189, [24425, 29699]), (190, [38075, 25106]), (191, [27801, 21457]), (192, [32440, 24062]),
    (193, [33647]), (194, [25163, 26538]), (195, [38738, 34521]), (196, [33590]),
    (197, [30504, 30524, 30555]), (198, [27882, 22868]), (199, [26080, 22856]),
    (200, [21334, 33804]), (201, [23567, 32416, 32467]), (202, [21943, 34880]),
    (203, [26012, 30524, 31505]), (204, [100, 111, 103, 101]), (205, [24778, 21916]),
    (206, [39578, 25200]), (207, [31505, 21741]), (208, [25105, 26368, 32654]),
    (209, [27827, 34809]), (210, [32650, 39548]), (211, [26647, 23376]), (212, [24189, 28789]),
    (213, [34507]), (214, [33738, 33457]), (215, [32418, 21253]), (216, [22823, 31505]),
    (217, [19981, 24320, 24515]), (218, [20919, 28448]), (219, [21571]), (220, [22909, 26834]),
    (221, [25308, 25176]), (222, [28857, 36190]), (223, [26080, 32842]), (224, [25176, 33080]),
    (225, [21507]), (226, [36865, 33457]), (227, [23475, 24597]), (228, [33457, 30196]),
    (229, [23567, 26679, 20799]), (230, [39129, 27882]), (231, [25105, 19981, 30475]),
    (232, [25176, 33134]), (233, [21877, 21877]), (234, [31946, 33080]), (235, [25293, 22836]),
    (236, [25199, 19968, 25199]), (237, [33300, 19968, 33300]), (238, [36461, 19968, 36461]),
    (239, [25341, 28856, 22825]), (240, [39030, 21617, 21617]), (241, [25265, 25265]),
    (242, [26292, 20987]), (243, [24320, 26538]), (244, [25769, 19968, 25769]),
    (245, [25293, 26700]), (246, [25293, 25163]), (247, [24685, 21916]), (248, [24178, 26479]),
    (249, [22066, 35773]), (250, [21756]), (251, [20315, 31995]), (252, [25488, 19968, 25488]),
    (253, [24778, 21574]), (254, [39076, 25238]), (255, [21827, 22836]), (256, [20599, 30475]),
    (257, [25159, 33080]), (258, [21407, 35845]), (259, [21943, 33080]),
    (260, [29983, 26085, 24555, 20048]), (261, [22836, 25758, 20987]), (262, [29993, 22836]),
    (263, [25172, 29399]), (264, [21152, 27833, 24517, 32988]),
    (265, [21152, 27833, 25265, 25265]), (266, [21475, 32617, 25252, 20307]),
    (267, [25644, 30742, 20013]), (268, [24537, 21040, 39134, 36215]),
    (269, [33041, 38420, 30140]), (270, [27815, 26705]), (271, [25410, 33080]),
    (272, [36771, 30524, 30555]), (273, [21734, 21727]), (274, [22836, 31171]),
    (275, [38382, 21495, 33080]), (276, [26263, 20013, 35266, 23519]), (277, [101, 109, 109]),
    (278, [21507, 29916]), (279, [21621, 21621, 21714]), (280, [25105, 37240, 20102]),
    (281, [22826, 21335, 20102]), (282, [36771, 26898, 37233]), (283, [27754, 27754]),
    (284, [27735]), (285, [25171, 33080]), (286, [20987, 25484]), (287, [26080, 30524, 31505]),
    (288, [25964, 31036]), (289, [29378, 31505]), (290, [38754, 26080, 34920, 24773]),
    (291, [25720, 40060]), (292, [39764, 39740, 31505]), (293, [21734]), (294, [35831]),
    (295, [30529, 30524]), (296, [25970, 24320, 24515]), (297, [38663, 24778]),
    (298, [35753, 25105, 24247, 24247]), (299, [25720, 38182, 40100]), (300, [26399, 24453]),
    (301, [25343, 21040, 32418, 21253]), (302, [30495, 22909]), (303, [25308, 35874]),
    (304, [20803, 23453]), (305, [29275, 21834]), (306, [32982, 19977, 26020]),
    (307, [22909, 38378]), (308, [24038, 25308, 24180]), (309, [21491, 25308, 24180]),
    (310, [32418, 21253, 21253]), (311, [21491, 20146, 20146]),
    (312, [29275, 27668, 20914, 22825]), (313, [21941, 21941]), (314, [27714, 32418, 21253]),
    (315, [35874, 32418, 21253]), (316, [26032, 24180, 28895, 33457]),
    (317, [25171, 99, 97, 108, 108]), (318, [21464, 24418]), (319, [21969, 21040, 20102]),
    (320, [20180, 32454, 20998, 26512]), (321, [21152, 27833]), (322, [25105, 27809, 20107]),
    (323, [33756, 29399]), (324, [23815, 25308]), (325, [27604, 24515]), (326, [24198, 31069]),
    (327, [32769, 33394, 30174]), (328, [25298, 32477]), (329, [23244, 24323]),
    (330, [21507, 31958]), (331, [24778, 21523]), (332, [29983, 27668]), (333, [21152, 19968]),
    (334, [20943, 19968]), (335, [21512, 21313]), (336, [35010, 24320]), (337, [22696, 38236]),
    (338, [31038, 20250, 31038, 20250]), (339, [26106, 26612]), (340, [22909, 30340]),
    (341, [20030, 29260, 29260]), (342, [35961, 23376, 22836]), (343, [20551, 31505]),
    (344, [25171, 25307, 21628]), (345, [25720, 25720]), (346, [37240, 81]),
    (347, [25105, 26041, 20102]), (348, [22823, 24616, 31181]),
    (349, [32418, 21253, 22810, 22810]), (350, [28895, 33457]), (351, [31119]),
    (352, [33457, 26397, 33410]), (353, [21457, 32418, 21253]),
    (354, [25105, 24819, 24320, 20102]), (355, [30097, 24785]), (400, [27604, 24515]),
    (401, [24515, 21160]), (402, [40723, 25484]), (403, [25746, 33457]), (404, [28843, 33310]),
    (405, [32763, 36319, 22836]), (406, [36339, 36339]), (407, [24778, 21916]),
    (408, [20180, 32454, 20998, 26512]), (409, [21464, 24418]), (450, [27604, 24515]),
    (451, [39134, 21563]), (452, [25265, 25265]), (453, [25746, 23047]), (454, [21886, 21886]),
    (455, [20040, 20040, 21714]), (456, [32473, 24515, 24515]), (457, [25171, 27668]),
    (458, [30504, 30524]), (459, [37239]), (460, [35843, 30382]), (461, [21487, 29233]),
    (462, [24471, 24847]), (463, [38590, 36807]), (464, [21574]), (465, [29983, 27668]),
    (466, [24778, 35766]), (467, [27735]), (468, [21520]), (469, [30561]),
    (500, [22909, 32822]), (501, [33453, 27604, 81]),
    (502, [23567, 21494, 23376, 20030, 29260]), (503, [27748, 22278]),
    (504, [20803, 23477, 24555, 20048])
  ]"

definition QQ_FACE_MAP :: "int \<Rightarrow> ustring option" where
  \<comment> \<open>\<open>QQ_FACE_MAP[faceId]\<close> for a number\<close>
  "QQ_FACE_MAP i = (if i < 0 then None else map_of QQ_FACE_MAP_entries (nat i))"

definition NAPCAT_SAFE_FACE_IDS :: "nat list" where
  "NAPCAT_SAFE_FACE_IDS =
     [0, 1, 2, 3, 4, 5, 6, 7, 8, 9, 10, 11, 12, 13, 14, 15, 16, 17, 18, 19, 20,
      21, 22, 23, 24, 25, 26, 27, 28, 29, 30, 31, 32, 33, 34, 35, 36, 37, 38, 39,
      96, 97, 98, 99, 100, 101, 102, 103, 104, 105, 106, 107, 108, 109, 110]"

definition name_to_id_step :: "nat \<times> ustring \<Rightarrow> (ustring \<rightharpoonup> nat) \<Rightarrow> (ustring \<rightharpoonup> nat)" where
  \<comment> \<open>one iteration of the loop that builds \<open>QQ_FACE_NAME_TO_ID\<close>; comparing a number with an
      inherited member is false\<close>
  "name_to_id_step e m =
     (case e of (fid, name) \<Rightarrow>
        if fid \<in> set NAPCAT_SAFE_FACE_IDS then
          (if \<not> obj_has m name \<or> (case obj_get m name of Own v \<Rightarrow> fid < v | _ \<Rightarrow> False)
           then m(name \<mapsto> fid) else m)
        else m)"

definition build_name_to_id :: "(nat \<times> ustring) list \<Rightarrow> (ustring \<rightharpoonup> nat)" where
  "build_name_to_id es = fold name_to_id_step es Map.empty"

definition QQ_FACE_NAME_TO_ID :: "ustring \<rightharpoonup> nat" where
  "QQ_FACE_NAME_TO_ID = build_name_to_id QQ_FACE_MAP_entries"

definition getFaceIdByName :: "ustring \<Rightarrow> nat js_prop" where
  "getFaceIdByName name = obj_get QQ_FACE_NAME_TO_ID name"

subsection \<open>The emoji pattern\<close>

text \<open>
  The pattern of \<open>parseTextWithEmoji\<close> has two alternatives: an opening bracket, the two
  code units 34920 and 24773, a colon, group 1 \<^verbatim>\<open>([^\]]+)\<close> and a closing bracket; or
  \<^verbatim>\<open>\[face:(\d+)\]\<close>. Both alternatives are deterministic: a greedy run of
  code units other than \<open>]\<close> (of digits) must be followed at once by \<open>]\<close>.
\<close>

definition name_open :: ustring where
  "name_open = [91, 34920, 24773, 58]"

definition id_open :: ustring where
  "id_open = asc ''[face:''"

datatype emoji_match = MatchName ustring | MatchId ustring

definition match_name_at :: "ustring \<Rightarrow> (emoji_match \<times> nat) option" where
  \<comment> \<open>the first alternative at the start of \<open>s\<close>: group 1 and the length of the match\<close>
  "match_name_at s =
     (case strip_prefix name_open s of
        None \<Rightarrow> None
      | Some r \<Rightarrow>
          (let g = takeWhile (\<lambda>c. c \<noteq> 93) r
           in if g \<noteq> [] \<and> length g < length r
              then Some (MatchName g, length name_open + length g + 1) else None))"

definition match_id_at :: "ustring \<Rightarrow> (emoji_match \<times> nat) option" where
  \<comment> \<open>the second alternative at the start of \<open>s\<close>: group 2 and the length of the match\<close>
  "match_id_at s =
     (case strip_prefix id_open s of
        None \<Rightarrow> None
      | Some r \<Rightarrow>
          (let g = takeWhile is_digit r
           in if g \<noteq> [] \<and> (case dropWhile is_digit r of [] \<Rightarrow> False | c # _ \<Rightarrow> c = 93)
              then Some (MatchId g, length id_open + length g + 1) else None))"

definition emoji_match_at :: "ustring \<Rightarrow> (emoji_match \<times> nat) option" where
  "emoji_match_at s = (case match_name_at s of Some m \<Rightarrow> Some m | None \<Rightarrow> match_id_at s)"

fun search :: "ustring \<Rightarrow> (nat \<times> emoji_match \<times> nat) option" where
  \<comment> \<open>the leftmost match in \<open>s\<close>: its index, its group and its length\<close>
  "search [] = None"
| "search (c # cs) =
     (case emoji_match_at (c # cs) of
        Some (m, n) \<Rightarrow> Some (0, m, n)
      | None \<Rightarrow> (case search cs of None \<Rightarrow> None | Some (i, m, n) \<Rightarrow> Some (Suc i, m, n)))"

definition exec :: "ustring \<Rightarrow> nat \<Rightarrow> (nat \<times> emoji_match \<times> nat) option" where
  \<comment> \<open>\<open>emojiPattern.exec(text)\<close> of the global pattern whose \<open>lastIndex\<close> is given\<close>
  "exec text lastIndex =
     (if length text < lastIndex then None
      else (case search (drop lastIndex text) of
              None \<Rightarrow> None
            | Some (i, m, n) \<Rightarrow> Some (lastIndex + i, m, n)))"

definition hasEmojiCode :: "ustring \<Rightarrow> bool" where
  \<comment> \<open>\<open>.test(text)\<close> of the same pattern without the global flag\<close>
  "hasEmojiCode text \<longleftrightarrow> search text \<noteq> None"

function parse_loop :: "ustring \<Rightarrow> nat \<Rightarrow> OneBotMessage list \<Rightarrow> nat \<times> OneBotMessage list" where
  \<comment> \<open>the \<open>while\<close> loop of \<open>parseTextWithEmoji\<close>, on \<open>lastIndex\<close> and \<open>segments\<close>; after a match
      \<open>exec\<close> leaves the pattern's own \<open>lastIndex\<close> at the end of the match, which is the value
      the loop assigns to its variable. The test on \<open>n\<close> and \<open>index\<close> before the recursive call
      always succeeds (lemma \<open>exec_bounds\<close>): a match is not empty and lies inside the text\<close>
  "parse_loop text lastIndex segments =
     (case exec text lastIndex of
        None \<Rightarrow> (lastIndex, segments)
      | Some (index, m, n) \<Rightarrow>
          (let before = (if lastIndex < index
                         then (let beforeText = take (index - lastIndex) (drop lastIndex text)
                               in if beforeText \<noteq> [] then [SegText beforeText] else [])
                         else []);
               whole = take n (drop index text);
               seg = (case m of
                        MatchName faceName \<Rightarrow>
                          (case obj_get QQ_FACE_NAME_TO_ID faceName of
                             Own faceId \<Rightarrow> [SegFace (IdNum (int faceId))]
                           | Inherited \<Rightarrow> [SegFace (IdInherited faceName)]
                           | Undefined \<Rightarrow> [SegText whole])
                      | MatchId ds \<Rightarrow>
                          [SegFace (case to_double (digits_value ds) of
                                      Some v \<Rightarrow> IdNum (int v)
                                    | None \<Rightarrow> IdInfinity)])
           in if 0 < n \<and> index + n \<le> length text
              then parse_loop text (index + n) (segments @ before @ seg)
              else (lastIndex, segments)))"
  by pat_completeness auto
termination
  by (relation "measure (\<lambda>(text, lastIndex, segments). Suc (length text) - lastIndex)")
     (auto simp: exec_def split: option.splits if_splits)

declare parse_loop.simps [simp del]

definition parseTextWithEmoji :: "ustring \<Rightarrow> OneBotMessage list" where
  "parseTextWithEmoji text =
     (case parse_loop text 0 [] of
        (lastIndex, segments) \<Rightarrow>
          (let segments' =
                 (if lastIndex < length text
                  then (let remainingText = drop lastIndex text
                        in if remainingText \<noteq> [] then segments @ [SegText remainingText]
                           else segments)
                  else segments)
           in if segments' = [] then [SegText text] else segments'))"

subsection \<open>Text extraction\<close>

definition face_name :: "js_number \<Rightarrow> ustring option" where
  \<comment> \<open>\<open>QQ_FACE_MAP[faceId]\<close> for a number: the keys of the table are decimals of small
      integers, so no other number finds an entry\<close>
  "face_name n = (case n of Finite i \<Rightarrow> QQ_FACE_MAP i | _ \<Rightarrow> None)"

definition face_label :: "js_number \<Rightarrow> ustring" where
  \<comment> \<open>\<open>faceName ?? faceId\<close> as the template prints it, for a number \<open>faceId\<close>\<close>
  "face_label n = (case face_name n of Some name \<Rightarrow> name | None \<Rightarrow> number_to_string n)"

definition face_text :: "face_id \<Rightarrow> ustring" where
  \<comment> \<open>the face branch of \<open>extractTextFromMessage\<close>: a string id is parsed, the name is looked up
      in \<open>QQ_FACE_MAP\<close>, and the template prints \<open>faceName ?? faceId ?? "emoji"\<close>\<close>
  "face_text d =
     [91, 34920, 24773, 58] @
     (case d of
        IdNum i \<Rightarrow> face_label (to_number i)
      | IdInfinity \<Rightarrow> face_label PlusInfinity
      | IdStr s \<Rightarrow> face_label (parseInt10 s)
      | IdAbsent \<Rightarrow> asc ''emoji''
      | IdInherited k \<Rightarrow> inherited_to_string k)
     @ [93]"

definition mface_text :: "ustring option \<Rightarrow> ustring option \<Rightarrow> ustring" where
  \<comment> \<open>the mface branch: \<open>summary || emoji_id\<close> or else the two code units 34920, 24773, printed
      after an opening bracket and the code units 22823, 34920, 24773 and a colon\<close>
  "mface_text summary emoji_id =
     [91, 22823, 34920, 24773, 58] @
     (case or_str summary emoji_id of
        Some t \<Rightarrow> if t \<noteq> [] then t else [34920, 24773]
      | None \<Rightarrow> [34920, 24773])
     @ [93]"

fun extract_parts :: "OneBotMessage list \<Rightarrow> ustring list" where
  \<comment> \<open>the array \<open>parts\<close> of \<open>extractTextFromMessage\<close>\<close>
  "extract_parts [] = []"
| "extract_parts (SegText t # segs) = (if t \<noteq> [] then [t] else []) @ extract_parts segs"
| "extract_parts (SegFace d # segs) = face_text d # extract_parts segs"
| "extract_parts (SegMface url emoji_id summary # segs) =
     mface_text summary emoji_id # extract_parts segs"
| "extract_parts (seg # segs) = extract_parts segs"

definition extractTextFromMessage :: "OneBotMessage list \<Rightarrow> ustring" where
  "extractTextFromMessage message = join [] (extract_parts message)"

section \<open>Outbound RPC (api.ts)\<close>

text \<open>
  Every external action is one HTTP POST to the gateway. The gateway is an oracle: given the
  calls made so far and the next call it yields the parsed response, or \<open>None\<close> when
  \<open>fetch\<close> or \<open>response.json()\<close> throws. The calls made are recorded in a trace. The
  configuration only selects the base URL and the authorisation header and is left out.
\<close>

datatype messageType = Private | Group

datatype api_call =
    Send_private_msg int "OneBotMessage list"   \<comment> \<open>\<open>send_private_msg {user_id, message}\<close>\<close>
  | Send_group_msg int "OneBotMessage list"     \<comment> \<open>\<open>send_group_msg {group_id, message}\<close>\<close>

datatype api_status =
    Ok       \<comment> \<open>\<open>status\<close> is \<open>ok\<close>\<close>
  | Failed   \<comment> \<open>\<open>status\<close> is anything else\<close>

record OneBotApiResponse =
  status :: api_status
  retcode :: int

datatype error =
    InvalidMessageParams   \<comment> \<open>\<open>throw new Error("Invalid message params")\<close>\<close>
  | FetchFailed            \<comment> \<open>the exception of a failed \<open>fetch\<close> or \<open>response.json()\<close>\<close>

type_synonym gateway = "api_call list \<Rightarrow> api_call \<Rightarrow> OneBotApiResponse option"

type_synonym 'a io = "api_call list \<Rightarrow> 'a \<times> api_call list"

definition callOneBotApi :: "gateway \<Rightarrow> api_call \<Rightarrow> (error + OneBotApiResponse) io" where
  "callOneBotApi gw call trace =
     ((case gw trace call of None \<Rightarrow> Inl FetchFailed | Some r \<Rightarrow> Inr r), trace @ [call])"

datatype message_arg = MsgString ustring | MsgSegments "OneBotMessage list"

definition as_segments :: "message_arg \<Rightarrow> OneBotMessage list" where
  \<comment> \<open>\<open>typeof message === "string" ? [{type: "text", data: {text: message}}] : message\<close>\<close>
  "as_segments msg = (case msg of MsgString s \<Rightarrow> [SegText s] | MsgSegments m \<Rightarrow> m)"

definition sendPrivateMsg ::
  "gateway \<Rightarrow> int \<Rightarrow> message_arg \<Rightarrow> (error + OneBotApiResponse) io" where
  "sendPrivateMsg gw uid msg = callOneBotApi gw (Send_private_msg uid (as_segments msg))"

definition sendGroupMsg ::
  "gateway \<Rightarrow> int \<Rightarrow> message_arg \<Rightarrow> (error + OneBotApiResponse) io" where
  "sendGroupMsg gw gid msg = callOneBotApi gw (Send_group_msg gid (as_segments msg))"

record send_params =
  messageType :: messageType
  userId :: "int option"
  groupId :: "int option"
  message :: message_arg

definition truthy_num :: "int option \<Rightarrow> bool" where
  \<comment> \<open>truthiness of an optional integral number: defined and not zero\<close>
  "truthy_num n \<longleftrightarrow> (case n of None \<Rightarrow> False | Some i \<Rightarrow> i \<noteq> 0)"

definition sendMsg :: "gateway \<Rightarrow> send_params \<Rightarrow> (error + OneBotApiResponse) io" where
  "sendMsg gw params trace =
     (let msg = MsgSegments (as_segments (message params))
      in if messageType params = Private \<and> truthy_num (userId params) then
           (case userId params of
              Some u \<Rightarrow> sendPrivateMsg gw u msg trace
            | None \<Rightarrow> (Inl InvalidMessageParams, trace))
         else if messageType params = Group \<and> truthy_num (groupId params) then
           (case groupId params of
              Some g \<Rightarrow> sendGroupMsg gw g msg trace
            | None \<Rightarrow> (Inl InvalidMessageParams, trace))
         else (Inl InvalidMessageParams, trace))"

record media_params =
  mp_messageType :: messageType
  mp_userId :: "int option"
  mp_groupId :: "int option"
  mp_file :: ustring
  mp_text :: "ustring option"

definition media_message :: "(ustring \<Rightarrow> OneBotMessage) \<Rightarrow> media_params \<Rightarrow> send_params" where
  \<comment> \<open>the segment array that \<open>sendImage\<close> and \<open>sendVideo\<close> build: the media segment and, when
      \<open>text\<close> is truthy, a text segment\<close>
  "media_message seg p =
     \<lparr>messageType = mp_messageType p, userId = mp_userId p, groupId = mp_groupId p,
      message = MsgSegments (seg (mp_file p) #
                   (case mp_text p of None \<Rightarrow> [] | Some t \<Rightarrow> if t \<noteq> [] then [SegText t] else []))\<rparr>"

definition sendImage :: "gateway \<Rightarrow> media_params \<Rightarrow> (error + OneBotApiResponse) io" where
  "sendImage gw p = sendMsg gw (media_message (\<lambda>f. SegImage f None) p)"

definition sendVideo :: "gateway \<Rightarrow> media_params \<Rightarrow> (error + OneBotApiResponse) io" where
  "sendVideo gw p = sendMsg gw (media_message (\<lambda>f. SegVideo f None) p)"

definition sendRecord :: "gateway \<Rightarrow> media_params \<Rightarrow> (error + OneBotApiResponse) io" where
  \<comment> \<open>\<open>sendRecord\<close> has no \<open>text\<close> parameter\<close>
  "sendRecord gw p = sendMsg gw (media_message (\<lambda>f. SegRecord f None) (p\<lparr>mp_text := None\<rparr>))"

section \<open>Media extraction (api.ts)\<close>

datatype media_type = MImage | MRecord | MVideo | MFile | MMface

record ExtractedMedia =
  mtype :: media_type
  url :: ustring
  media_file :: "ustring option"   \<comment> \<open>the field \<open>file\<close>\<close>
  fileName :: "ustring option"
  fileSize :: "int option"
  summary :: "ustring option"

definition url_or_file :: "ustring option \<Rightarrow> ustring \<Rightarrow> ustring" where
  \<comment> \<open>\<open>data.url || data.file\<close>\<close>
  "url_or_file u f = (case u of Some v \<Rightarrow> if v \<noteq> [] then v else f | None \<Rightarrow> f)"

definition plain_media :: "media_type \<Rightarrow> ustring \<Rightarrow> ustring option \<Rightarrow> ExtractedMedia list" where
  \<comment> \<open>the image, record and video branches of \<open>extractMediaFromMessage\<close>\<close>
  "plain_media t f u =
     (if url_or_file u f \<noteq> []
      then [\<lparr>mtype = t, url = url_or_file u f, media_file = Some f, fileName = None,
             fileSize = None, summary = None\<rparr>]
      else [])"

fun extractMediaFromMessage :: "OneBotMessage list \<Rightarrow> ExtractedMedia list" where
  "extractMediaFromMessage [] = []"
| "extractMediaFromMessage (SegImage f u # segs) = plain_media MImage f u @ extractMediaFromMessage segs"
| "extractMediaFromMessage (SegMface u emoji_id summ # segs) =
     (if truthy_str u
      then [\<lparr>mtype = MMface, url = (case u of Some v \<Rightarrow> v | None \<Rightarrow> []), media_file = None,
             fileName = None, fileSize = None,
             summary = Some (case or_str summ emoji_id of
                               Some t \<Rightarrow> if t \<noteq> [] then t else [34920, 24773]
                             | None \<Rightarrow> [34920, 24773])\<rparr>]
      else [])
     @ extractMediaFromMessage segs"
| "extractMediaFromMessage (SegRecord f u # segs) = plain_media MRecord f u @ extractMediaFromMessage segs"
| "extractMediaFromMessage (SegVideo f u # segs) = plain_media MVideo f u @ extractMediaFromMessage segs"
| "extractMediaFromMessage (SegFile f u name sz # segs) =
     (case or_str u f of
        Some fileUrl \<Rightarrow>
          (if fileUrl \<noteq> []
           then [\<lparr>mtype = MFile, url = fileUrl, media_file = f, fileName = name, fileSize = sz,
                  summary = None\<rparr>]
           else [])
      | None \<Rightarrow> [])
     @ extractMediaFromMessage segs"
| "extractMediaFromMessage (seg # segs) = extractMediaFromMessage segs"

fun is_at_target :: "ustring \<Rightarrow> OneBotMessage \<Rightarrow> bool" where
  "is_at_target userIdStr (SegAt qq) \<longleftrightarrow> qq = userIdStr \<or> qq = asc ''all''"
| "is_at_target userIdStr seg \<longleftrightarrow> False"

datatype id_value = NumId int | StrId ustring   \<comment> \<open>\<open>string | number\<close>\<close>

definition id_to_string :: "id_value \<Rightarrow> ustring" where
  \<comment> \<open>\<open>String(userId)\<close>\<close>
  "id_to_string v = (case v of NumId i \<Rightarrow> show_int i | StrId s \<Rightarrow> s)"

definition isAtUser :: "OneBotMessage list \<Rightarrow> id_value \<Rightarrow> bool" where
  "isAtUser msg uid \<longleftrightarrow> list_ex (is_at_target (id_to_string uid)) msg"

section \<open>The host environment (index.ts)\<close>

text \<open>
  What the plugin reads from the outside world while it handles one event: the file system,
  the path helpers of Node, and the two download helpers \<open>downloadImageToTempFile\<close> and
  \<open>downloadFileToTemp\<close>, whose results depend on the network, the disk and a random file
  name and are therefore taken from the environment (\<open>None\<close> is their \<open>null\<close>). A file
  system read that throws is \<open>None\<close>. \<open>existsSync\<close> takes the number of earlier calls,
  since the source polls it while another process may still be writing the file.
\<close>

record downloaded_image =
  img_path :: ustring
  img_dataUrl :: ustring
  img_mimeType :: ustring
  img_size :: nat

record downloaded_file =
  dl_path :: ustring
  dl_content :: "ustring option"
  dl_mimeType :: ustring
  dl_size :: nat
  dl_isText :: bool

record host =
  path_sep :: ustring
  fs_access :: "ustring \<Rightarrow> bool"
  fs_readFile :: "ustring \<Rightarrow> nat list option"
  readFileSync :: "ustring \<Rightarrow> nat list option"
  existsSync :: "nat \<Rightarrow> ustring \<Rightarrow> bool"
  decodeURIComponent :: "ustring \<Rightarrow> ustring option"
  extname :: "ustring \<Rightarrow> ustring"
  basename :: "ustring \<Rightarrow> ustring"
  downloadImageToTempFile :: "ustring \<Rightarrow> downloaded_image option"
  downloadFileToTemp :: "ustring \<Rightarrow> ustring option \<Rightarrow> downloaded_file option"

definition b64_char :: "nat \<Rightarrow> nat" where
  "b64_char n =
     (if n < 26 then 65 + n else if n < 52 then 97 + (n - 26)
      else if n < 62 then 48 + (n - 52) else if n = 62 then 43 else 47)"

fun base64 :: "nat list \<Rightarrow> ustring" where
  \<comment> \<open>\<open>buffer.toString("base64")\<close> of a list of bytes\<close>
  "base64 [] = []"
| "base64 [a] = [b64_char (a div 4), b64_char ((a mod 4) * 16), 61, 61]"
| "base64 [a, b] =
     [b64_char (a div 4), b64_char ((a mod 4) * 16 + b div 16), b64_char ((b mod 16) * 4), 61]"
| "base64 (a # b # c # r) =
     [b64_char (a div 4), b64_char ((a mod 4) * 16 + b div 16),
      b64_char ((b mod 16) * 4 + c div 64), b64_char (c mod 64)] @ base64 r"

definition lower_unit :: "nat \<Rightarrow> nat" where
  "lower_unit c = (if 65 \<le> c \<and> c \<le> 90 then c + 32 else if c = 8490 then 107 else c)"

definition toLowerCase :: "ustring \<Rightarrow> ustring" where
  \<comment> \<open>\<open>String.prototype.toLowerCase\<close> as far as the tests below can tell: the source only
      compares the result with ASCII extensions, and the only code units outside \<open>A-Z\<close>
      whose lower case contains an ASCII letter are U+212A (to \<open>k\<close>) and U+0130 (to \<open>i\<close>
      followed by U+0307, which no extension allows after an \<open>i\<close>)\<close>
  "toLowerCase s = map lower_unit s"

fun str_includes :: "ustring \<Rightarrow> ustring \<Rightarrow> bool" where
  \<comment> \<open>\<open>s.includes(p)\<close>\<close>
  "str_includes [] p \<longleftrightarrow> p = []"
| "str_includes (c # cs) p \<longleftrightarrow> startsWith (c # cs) p \<or> str_includes cs p"

section \<open>Outbound reconciler (index.ts)\<close>

datatype media_kind = KImage | KVideo | KAudio | KDocument

definition ext_here :: "ustring list \<Rightarrow> ustring \<Rightarrow> bool" where
  \<comment> \<open>\<open>(e1|e2|...)(\?|$)\<close> at the start of \<open>r\<close>\<close>
  "ext_here exts r \<longleftrightarrow>
     list_ex (\<lambda>e. case strip_prefix e r of
                    None \<Rightarrow> False
                  | Some t \<Rightarrow> (case t of [] \<Rightarrow> True | c # _ \<Rightarrow> c = 63)) exts"

fun ext_test :: "ustring list \<Rightarrow> ustring \<Rightarrow> bool" where
  \<comment> \<open>\<open>/\.(e1|e2|...)(\?|$)/i.test(s)\<close> on a lower-cased \<open>s\<close>\<close>
  "ext_test exts [] \<longleftrightarrow> False"
| "ext_test exts (c # cs) \<longleftrightarrow> (c = 46 \<and> ext_here exts cs) \<or> ext_test exts cs"

definition detectMediaKind :: "ustring \<Rightarrow> media_kind" where
  "detectMediaKind u =
     (let lower = toLowerCase u
      in if ext_test [asc ''jpg'', asc ''jpeg'', asc ''png'', asc ''gif'', asc ''webp'', asc ''bmp''] lower
         then KImage
         else if ext_test [asc ''mp4'', asc ''avi'', asc ''mov'', asc ''mkv'', asc ''webm''] lower
         then KVideo
         else if ext_test [asc ''mp3'', asc ''ogg'', asc ''wav'', asc ''m4a'', asc ''flac'', asc ''opus''] lower
         then KAudio
         else KImage)"

definition replace_slashes :: "ustring \<Rightarrow> ustring \<Rightarrow> ustring" where
  \<comment> \<open>\<open>p.replace(/\//g, sep)\<close>\<close>
  "replace_slashes sep p = concat (map (\<lambda>c. if c = 47 then sep else [c]) p)"

definition normalize_local_path :: "ustring \<Rightarrow> ustring \<Rightarrow> ustring" where
  \<comment> \<open>the path that \<open>localFileToBase64Url\<close> hands to the file system\<close>
  "normalize_local_path sep filePath =
     replace_slashes sep
       (if startsWith filePath (asc ''file:///'') then drop 8 filePath
        else if startsWith filePath (asc ''file://'') then drop 7 filePath
        else filePath)"

definition localFileToBase64Url :: "host \<Rightarrow> ustring \<Rightarrow> ustring option" where
  \<comment> \<open>\<open>None\<close> is the \<open>null\<close> of the \<open>catch\<close> branch\<close>
  "localFileToBase64Url h filePath =
     (let normalizedPath = normalize_local_path (path_sep h) filePath
      in if fs_access h normalizedPath then
           (case fs_readFile h normalizedPath of
              None \<Rightarrow> None
            | Some buffer \<Rightarrow> Some (asc ''base64://'' @ base64 buffer))
         else None)"

definition is_ascii_letter :: "nat \<Rightarrow> bool" where
  "is_ascii_letter c \<longleftrightarrow> (65 \<le> c \<and> c \<le> 90) \<or> (97 \<le> c \<and> c \<le> 122)"

definition is_drive_path :: "ustring \<Rightarrow> bool" where
  \<comment> \<open>\<^verbatim>\<open>/^[A-Za-z]:[\\\/]/\<close>\<close>
  "is_drive_path u \<longleftrightarrow>
     (case u of a # b # c # _ \<Rightarrow> is_ascii_letter a \<and> b = 58 \<and> (c = 92 \<or> c = 47) | _ \<Rightarrow> False)"

definition isLocalFilePath :: "ustring \<Rightarrow> bool" where
  "isLocalFilePath u \<longleftrightarrow>
     startsWith u (asc ''file://'') \<or> is_drive_path u
     \<or> (startsWith u (asc ''/'') \<and> \<not> startsWith u (asc ''//''))"

record deliver_params =
  d_messageType :: messageType
  d_userId :: "int option"
  d_groupId :: "int option"
  d_mediaUrl :: ustring
  d_caption :: "ustring option"

definition deliverMediaToOneBot :: "host \<Rightarrow> gateway \<Rightarrow> deliver_params \<Rightarrow> bool io" where
  \<comment> \<open>the kind is detected on the URL as given; a local file is replaced by its
      \<open>base64://\<close> form; every exception of the sends is caught and gives \<open>false\<close>\<close>
  "deliverMediaToOneBot h gw p trace =
     (let kind = detectMediaKind (d_mediaUrl p);
          resolved = (if isLocalFilePath (d_mediaUrl p)
                      then localFileToBase64Url h (d_mediaUrl p)
                      else Some (d_mediaUrl p))
      in case resolved of
           None \<Rightarrow> (False, trace)
         | Some resolvedUrl \<Rightarrow>
             (let mp = \<lparr>mp_messageType = d_messageType p, mp_userId = d_userId p,
                        mp_groupId = d_groupId p, mp_file = resolvedUrl, mp_text = d_caption p\<rparr>
              in if kind = KVideo then
                   (case sendVideo gw mp trace of
                      (Inl e, t1) \<Rightarrow> (False, t1)
                    | (Inr result, t1) \<Rightarrow> (status result = Ok, t1))
                 else if kind = KAudio then
                   (case sendRecord gw mp trace of
                      (Inl e, t1) \<Rightarrow> (False, t1)
                    | (Inr result, t1) \<Rightarrow>
                        (if truthy_str (d_caption p) \<and> status result = Ok then
                           (case sendMsg gw \<lparr>messageType = d_messageType p, userId = d_userId p,
                                   groupId = d_groupId p,
                                   message = MsgString (case d_caption p of Some c \<Rightarrow> c | None \<Rightarrow> [])\<rparr> t1 of
                              (Inl e, t2) \<Rightarrow> (False, t2)
                            | (Inr r2, t2) \<Rightarrow> (status result = Ok, t2))
                         else (status result = Ok, t1)))
                 else
                   (case sendImage gw mp trace of
                      (Inl e, t1) \<Rightarrow> (False, t1)
                    | (Inr result, t1) \<Rightarrow> (status result = Ok, t1))))"

record ReplyPayload =
  reply_text :: "ustring option"   \<comment> \<open>the field \<open>text\<close>\<close>
  mediaUrls :: "ustring list option"
  mediaUrl :: "ustring option"
  audioAsVoice :: bool

record reply_target =
  t_messageType :: messageType
  targetUserId :: "int option"
  targetGroupId :: "int option"

fun deliver_media_loop ::
  "host \<Rightarrow> gateway \<Rightarrow> reply_target \<Rightarrow> ustring option \<Rightarrow> nat \<Rightarrow> ustring list \<Rightarrow> unit io" where
  \<comment> \<open>the \<open>for\<close> loop over \<open>payloadMediaUrls\<close> from index \<open>i\<close> on; \<open>caption\<close> is \<open>text\<close> when
      \<open>hasText\<close> and is attached at index 0 only; empty entries are skipped\<close>
  "deliver_media_loop h gw tg caption i [] trace = ((), trace)"
| "deliver_media_loop h gw tg caption i (entry # rest) trace =
     (if entry = [] then deliver_media_loop h gw tg caption (Suc i) rest trace
      else (case deliverMediaToOneBot h gw
                   \<lparr>d_messageType = t_messageType tg, d_userId = targetUserId tg,
                    d_groupId = targetGroupId tg, d_mediaUrl = entry,
                    d_caption = (if i = 0 then caption else None)\<rparr> trace of
              (sent, t1) \<Rightarrow> deliver_media_loop h gw tg caption (Suc i) rest t1))"

definition send_text_reply :: "gateway \<Rightarrow> reply_target \<Rightarrow> ustring \<Rightarrow> unit io" where
  \<comment> \<open>the final \<open>try\<close> block of \<open>deliver\<close>: an exception of either \<open>sendMsg\<close> ends the block\<close>
  "send_text_reply gw tg txt trace =
     (let usedEmoji = hasEmojiCode txt;
          msg = (if usedEmoji then MsgSegments (parseTextWithEmoji txt) else MsgString txt)
      in case sendMsg gw \<lparr>messageType = t_messageType tg, userId = targetUserId tg,
                 groupId = targetGroupId tg, message = msg\<rparr> trace of
           (Inl e, t1) \<Rightarrow> ((), t1)
         | (Inr result, t1) \<Rightarrow>
             (if status result \<noteq> Ok \<and> usedEmoji then
                (case sendMsg gw \<lparr>messageType = t_messageType tg, userId = targetUserId tg,
                        groupId = targetGroupId tg, message = MsgString txt\<rparr> t1 of
                   (r2, t2) \<Rightarrow> ((), t2))
              else ((), t1)))"

definition payload_text :: "ReplyPayload \<Rightarrow> ustring" where
  \<comment> \<open>\<open>text = payload.text?.trim()\<close>; a missing text and the empty text are both falsy and
      are both represented by the empty string\<close>
  "payload_text payload = (case reply_text payload of None \<Rightarrow> [] | Some t \<Rightarrow> trim t)"

definition payloadMediaUrls :: "ReplyPayload \<Rightarrow> ustring list" where
  \<comment> \<open>\<open>payload.mediaUrls ?? (payload.mediaUrl ? [payload.mediaUrl] : [])\<close>\<close>
  "payloadMediaUrls payload =
     (case mediaUrls payload of
        Some us \<Rightarrow> us
      | None \<Rightarrow> (case mediaUrl payload of
                   Some u \<Rightarrow> if u \<noteq> [] then [u] else []
                 | None \<Rightarrow> []))"

definition deliver :: "host \<Rightarrow> gateway \<Rightarrow> reply_target \<Rightarrow> ReplyPayload \<Rightarrow> unit io" where
  \<comment> \<open>the \<open>deliver\<close> callback handed to the reply dispatcher. \<open>deliverMediaToOneBot\<close> catches
      every exception and returns a boolean, so the \<open>catch\<close> of the voice branch is never
      entered: once the first entry is audio, the branch ends in its \<open>return\<close>\<close>
  "deliver h gw tg payload trace =
     (let txt = payload_text payload;
          hasText = (txt \<noteq> []);
          hasPayloadMedia = (payloadMediaUrls payload \<noteq> [])
      in if \<not> hasText \<and> \<not> hasPayloadMedia then ((), trace)
         else if audioAsVoice payload \<and> hasPayloadMedia
                 \<and> (case payloadMediaUrls payload of
                       [] \<Rightarrow> False
                     | firstMedia # _ \<Rightarrow> firstMedia \<noteq> [] \<and> detectMediaKind firstMedia = KAudio)
         then (case payloadMediaUrls payload of
                 [] \<Rightarrow> ((), trace)
               | firstMedia # _ \<Rightarrow>
                   (case deliverMediaToOneBot h gw
                           \<lparr>d_messageType = t_messageType tg, d_userId = targetUserId tg,
                            d_groupId = targetGroupId tg, d_mediaUrl = firstMedia,
                            d_caption = None\<rparr> trace of
                      (sent, t1) \<Rightarrow> ((), t1)))
         else
           (let t1 = (if hasPayloadMedia
                      then snd (deliver_media_loop h gw tg (if hasText then Some txt else None) 0
                                  (payloadMediaUrls payload) trace)
                      else trace)
            in if hasPayloadMedia \<and> hasText then ((), t1)
               else if hasText then send_text_reply gw tg txt t1
               else ((), t1)))"

section \<open>Inbound processing (index.ts)\<close>

subsection \<open>Configuration and events (types.ts)\<close>

datatype group_policy = PolicyOpen | PolicyAllowlist | PolicyDisabled

record OneBotGroupConfig =
  enabled :: "bool option"
  requireMention :: "bool option"

record OneBotConfig =
  cfg_enabled :: "bool option"
  groupPolicy :: "group_policy option"
  groups :: "(ustring \<rightharpoonup> OneBotGroupConfig) option"
  selfId :: "id_value option"

record OneBotMessageEvent =
  self_id :: int
  message_type :: messageType
  message_id :: int
  user_id :: int
  group_id :: "int option"
  ev_message :: "OneBotMessage list"
  sender_card :: "ustring option"
  sender_nickname :: ustring

datatype OneBotEvent =
    MessageEvent OneBotMessageEvent   \<comment> \<open>\<open>post_type\<close> is \<open>message\<close>\<close>
  | OtherEvent int                    \<comment> \<open>a notice, request or meta event, with its \<open>self_id\<close>\<close>

definition truthy_id :: "id_value option \<Rightarrow> bool" where
  \<comment> \<open>truthiness of \<open>selfId\<close>: a number other than 0, or a string other than the empty one\<close>
  "truthy_id v \<longleftrightarrow>
     (case v of None \<Rightarrow> False | Some (NumId i) \<Rightarrow> i \<noteq> 0 | Some (StrId s) \<Rightarrow> s \<noteq> [])"

definition opt_int_to_string :: "int option \<Rightarrow> ustring" where
  \<comment> \<open>\<open>String(groupId)\<close> of an optional number\<close>
  "opt_int_to_string g = (case g of None \<Rightarrow> asc ''undefined'' | Some i \<Rightarrow> show_int i)"

subsection \<open>Media materialisation\<close>

record media_acc =
  mediaPaths :: "ustring list"
  mediaUrlsIn :: "ustring list"
  mediaTypes :: "ustring list"
  fileContents :: "ustring list"
  hasInboundAudio :: bool
  exists_calls :: nat   \<comment> \<open>how often \<open>existsSync\<close> has been called\<close>

definition KB :: "nat \<Rightarrow> nat" where
  \<comment> \<open>\<open>Math.round(size / 1024)\<close>\<close>
  "KB n = (n + 512) div 1024"

definition image_mime :: "ustring \<Rightarrow> ustring" where
  \<comment> \<open>\<open>mimeMap[ext] || "image/png"\<close>; an extension is empty or starts with a dot, so it is
      never the name of a member of \<open>Object.prototype\<close>\<close>
  "image_mime ext =
     (if ext = asc ''.png'' then asc ''image/png''
      else if ext = asc ''.jpg'' \<or> ext = asc ''.jpeg'' then asc ''image/jpeg''
      else if ext = asc ''.gif'' then asc ''image/gif''
      else if ext = asc ''.webp'' then asc ''image/webp''
      else asc ''image/png'')"

definition voice_mime :: "ustring \<Rightarrow> ustring \<Rightarrow> ustring" where
  "voice_mime ext filePath =
     (if ext = asc ''.silk'' \<or> str_includes filePath (asc ''.silk'') then asc ''audio/silk''
      else if ext = asc ''.mp3'' then asc ''audio/mpeg''
      else if ext = asc ''.ogg'' \<or> ext = asc ''.opus'' then asc ''audio/ogg''
      else if ext = asc ''.wav'' then asc ''audio/wav''
      else asc ''audio/amr'')"

fun poll_exists :: "host \<Rightarrow> nat \<Rightarrow> nat \<Rightarrow> ustring \<Rightarrow> bool \<times> nat" where
  \<comment> \<open>up to \<open>n\<close> further calls of \<open>existsSync(filePath)\<close>, stopping at the first success;
      returns the answer and the number of calls made so far\<close>
  "poll_exists h 0 calls filePath = (False, calls)"
| "poll_exists h (Suc n) calls filePath =
     (if existsSync h calls filePath then (True, Suc calls)
      else poll_exists h n (Suc calls) filePath)"

definition voice_unreadable_note :: ustring where
  "voice_unreadable_note =
     [10, 91, 29992, 25143, 21457, 36865, 20102, 19968, 26465, 35821, 38899, 28040,
      24687, 65292, 20294, 25991, 20214, 26080, 27861, 35775, 38382, 12290, 35831,
      26816, 26597, 32, 81, 81, 32, 25968, 25454, 30446, 24405, 26435, 38480, 12290,
      93]"

definition name_or_unknown :: "ustring option \<Rightarrow> ustring" where
  \<comment> \<open>\<open>media.fileName || "unknown"\<close>\<close>
  "name_or_unknown n = (case n of Some t \<Rightarrow> if t \<noteq> [] then t else asc ''unknown'' | None \<Rightarrow> asc ''unknown'')"

definition file_received_prefix :: ustring where
  "file_received_prefix = [10, 91, 25910, 21040, 25991, 20214, 58, 32]"

definition size_label :: ustring where
  "size_label = [44, 32, 22823, 23567, 58, 32]"

definition type_label :: ustring where
  "type_label = [44, 32, 31867, 22411, 58, 32]"

definition file_header :: "ustring \<Rightarrow> ustring" where
  "file_header name = [10, 10, 45, 45, 45, 32, 25991, 20214, 58, 32] @ name @ asc '' ---'' @ [10]"

definition file_footer :: ustring where
  "file_footer = [10, 45, 45, 45, 32, 25991, 20214, 32467, 26463, 32, 45, 45, 45]"

definition materialize :: "host \<Rightarrow> ExtractedMedia \<Rightarrow> media_acc \<Rightarrow> media_acc" where
  \<comment> \<open>the body of the loop over \<open>extractedMedia\<close>\<close>
  "materialize h media acc =
     (let u = url media;
          isHttpUrl = (startsWith u (asc ''http://'') \<or> startsWith u (asc ''https://''));
          isLocalPath = (is_drive_path u \<or> startsWith u (asc ''/''))
      in if u = [] then acc
         else if \<not> isHttpUrl \<and> \<not> isLocalPath then acc
         else if mtype media = MImage \<or> mtype media = MMface then
           (if isHttpUrl then
              (case downloadImageToTempFile h u of
                 Some result \<Rightarrow>
                   acc\<lparr>mediaPaths := mediaPaths acc @ [img_path result],
                       mediaUrlsIn := mediaUrlsIn acc @ [img_dataUrl result],
                       mediaTypes := mediaTypes acc @ [img_mimeType result]\<rparr>
               | None \<Rightarrow> acc)
            else
              (case readFileSync h u of
                 Some buffer \<Rightarrow>
                   (let mimeType = image_mime (toLowerCase (extname h u))
                    in acc\<lparr>mediaPaths := mediaPaths acc @ [u],
                           mediaUrlsIn := mediaUrlsIn acc
                              @ [asc ''data:'' @ mimeType @ asc '';base64,'' @ base64 buffer],
                           mediaTypes := mediaTypes acc @ [mimeType]\<rparr>)
               | None \<Rightarrow> acc))
         else if mtype media = MRecord then
           (let acc = acc\<lparr>hasInboundAudio := True\<rparr>
            in if isLocalPath then
                 (let decodedHit =
                        (case decodeURIComponent h u of
                           Some decoded \<Rightarrow> decoded \<noteq> u \<and> existsSync h (exists_calls acc) decoded
                         | None \<Rightarrow> False);
                      calls1 =
                        (case decodeURIComponent h u of
                           Some decoded \<Rightarrow> if decoded \<noteq> u then Suc (exists_calls acc)
                                           else exists_calls acc
                         | None \<Rightarrow> exists_calls acc);
                      filePath =
                        (if decodedHit
                         then (case decodeURIComponent h u of Some decoded \<Rightarrow> decoded | None \<Rightarrow> u)
                         else u);
                      polled = (if decodedHit then (True, calls1)
                                else poll_exists h 5 calls1 filePath)
                  in if fst polled then
                       acc\<lparr>mediaPaths := mediaPaths acc @ [filePath],
                           mediaTypes := mediaTypes acc
                              @ [voice_mime (toLowerCase (extname h filePath)) filePath],
                           exists_calls := snd polled\<rparr>
                     else
                       acc\<lparr>fileContents := fileContents acc @ [voice_unreadable_note],
                           exists_calls := snd polled\<rparr>)
               else
                 acc\<lparr>mediaUrlsIn := mediaUrlsIn acc @ [u],
                     mediaTypes := mediaTypes acc @ [asc ''audio/amr'']\<rparr>)
         else if mtype media = MFile then
           (if isHttpUrl then
              (case downloadFileToTemp h u (fileName media) of
                 Some result \<Rightarrow>
                   (if dl_isText result \<and> truthy_str (dl_content result) then
                      acc\<lparr>fileContents := fileContents acc
                            @ [file_header (name_or_unknown (fileName media))
                               @ (case dl_content result of Some c \<Rightarrow> c | None \<Rightarrow> [])
                               @ file_footer]\<rparr>
                    else
                      acc\<lparr>fileContents := fileContents acc
                            @ [file_received_prefix @ name_or_unknown (fileName media)
                               @ size_label @ show_nat (KB (dl_size result))
                               @ asc ''KB'' @ type_label @ dl_mimeType result @ asc '']'']\<rparr>)
               | None \<Rightarrow> acc)
            else
              (case readFileSync h u of
                 Some buffer \<Rightarrow>
                   acc\<lparr>fileContents := fileContents acc
                         @ [file_received_prefix
                            @ (if truthy_str (fileName media)
                               then (case fileName media of Some n \<Rightarrow> n | None \<Rightarrow> [])
                               else basename h u)
                            @ size_label @ show_nat (KB (length buffer)) @ asc ''KB]'']\<rparr>
               | None \<Rightarrow> acc))
         else acc)"

definition materialize_all :: "host \<Rightarrow> ExtractedMedia list \<Rightarrow> media_acc" where
  "materialize_all h ms =
     fold (materialize h) ms
       \<lparr>mediaPaths = [], mediaUrlsIn = [], mediaTypes = [], fileContents = [],
        hasInboundAudio = False, exists_calls = 0\<rparr>"

subsection \<open>Mention stripping and placeholders\<close>

function strip_mentions :: "ustring \<Rightarrow> ustring" where
  \<comment> \<open>\<^verbatim>\<open>rawBody.replace(/@[^\s]+\s*/g, "")\<close>: scanning from the left, every \<open>@\<close> that is followed
      by a code unit other than white space is deleted together with the greedy run of such
      code units and the white space after it; the scan resumes behind the match\<close>
  "strip_mentions [] = []"
| "strip_mentions (c # cs) =
     (if c = 64 \<and> (case cs of [] \<Rightarrow> False | d # _ \<Rightarrow> \<not> js_space d)
      then strip_mentions (dropWhile js_space (dropWhile (\<lambda>d. \<not> js_space d) cs))
      else c # strip_mentions cs)"
  by pat_completeness auto
termination
  by (relation "measure length")
     (auto intro!: le_imp_less_Suc order_trans [OF length_dropWhile_le] length_dropWhile_le)

declare strip_mentions.simps [simp del]

definition placeholder :: "ExtractedMedia \<Rightarrow> ustring" where
  "placeholder m =
     (if mtype m = MImage then asc ''<media:image>''
      else if mtype m = MMface then
        asc ''<media:sticker:''
        @ (case summary m of Some t \<Rightarrow> if t \<noteq> [] then t else [34920, 24773] | None \<Rightarrow> [34920, 24773])
        @ asc ''>''
      else if mtype m = MRecord then asc ''<media:audio>''
      else if mtype m = MVideo then asc ''<media:video>''
      else asc ''<media:file>'')"

subsection \<open>processOneBotMessage\<close>

datatype skip_reason =
    EmptyMessage          \<comment> \<open>no text and no media\<close>
  | GroupMessagesDisabled \<comment> \<open>the group policy is \<open>disabled\<close>\<close>
  | NotInAllowlist        \<comment> \<open>policy \<open>allowlist\<close> and no effective group configuration\<close>
  | GroupDisabled         \<comment> \<open>the effective configuration has \<open>enabled: false\<close>\<close>
  | NoMention             \<comment> \<open>a mention is required and the bot was not mentioned\<close>

record inbound_ctx =
  RawBody :: ustring
  From :: ustring
  To :: ustring
  ChatType :: ustring
  SenderName :: "ustring option"
  SenderId :: ustring
  WasMentioned :: "bool option"
  MessageSid :: ustring
  HasInboundAudio :: bool
  MediaPaths :: "ustring list option"
  MediaUrls :: "ustring list option"
  MediaTypes :: "ustring list option"

datatype outcome = Skipped skip_reason | Dispatched inbound_ctx

definition effective_group_config :: "OneBotConfig \<Rightarrow> int option \<Rightarrow> OneBotGroupConfig option" where
  \<comment> \<open>\<open>groups?.[String(groupId)] ?? groups?.["*"]\<close>; neither key is the name of a member of
      \<open>Object.prototype\<close>\<close>
  "effective_group_config cfg gid =
     (case groups cfg of
        None \<Rightarrow> None
      | Some gs \<Rightarrow> (case gs (opt_int_to_string gid) of
                     Some gc \<Rightarrow> Some gc
                   | None \<Rightarrow> gs (asc ''*'')))"

definition was_mentioned :: "OneBotConfig \<Rightarrow> OneBotMessageEvent \<Rightarrow> bool" where
  \<comment> \<open>\<open>wasMentioned\<close>: only computed for a group event when \<open>selfId\<close> is truthy\<close>
  "was_mentioned cfg event \<longleftrightarrow>
     message_type event = Group \<and> truthy_id (selfId cfg)
     \<and> (case selfId cfg of None \<Rightarrow> False | Some sid \<Rightarrow> isAtUser (ev_message event) sid)"

definition body_with_files :: "host \<Rightarrow> OneBotMessageEvent \<Rightarrow> ustring" where
  \<comment> \<open>\<open>rawBody\<close> before the mention block: the trimmed text with the notes of the
      materialised files appended\<close>
  "body_with_files h event =
     (let acc = materialize_all h (extractMediaFromMessage (ev_message event));
          rawBody = trim (extractTextFromMessage (ev_message event))
      in if fileContents acc \<noteq> [] then rawBody @ join [] (fileContents acc) else rawBody)"

definition raw_body_of :: "host \<Rightarrow> OneBotConfig \<Rightarrow> OneBotMessageEvent \<Rightarrow> ustring" where
  \<comment> \<open>\<open>rawBody\<close> as it stands when the empty-content check is reached: the mentions are
      stripped when \<open>wasMentioned\<close>\<close>
  "raw_body_of h cfg event =
     (if was_mentioned cfg event then trim (strip_mentions (body_with_files h event))
      else body_with_files h event)"

definition requireMention_of :: "OneBotConfig \<Rightarrow> OneBotMessageEvent \<Rightarrow> bool" where
  \<comment> \<open>\<open>requireMention = groupConfig?.requireMention ?? true\<close>\<close>
  "requireMention_of cfg event \<longleftrightarrow>
     (case effective_group_config cfg (group_id event) of
        None \<Rightarrow> True
      | Some gc \<Rightarrow> (case requireMention gc of None \<Rightarrow> True | Some b \<Rightarrow> b))"

definition group_gate :: "OneBotConfig \<Rightarrow> OneBotMessageEvent \<Rightarrow> bool \<Rightarrow> skip_reason option" where
  \<comment> \<open>the block \<open>if (isGroup) {...}\<close>: the reason of its \<open>return\<close>, if it returns\<close>
  "group_gate cfg event wasMentioned =
     (let policy = (case groupPolicy cfg of None \<Rightarrow> PolicyAllowlist | Some p \<Rightarrow> p);
          groupConfig = effective_group_config cfg (group_id event)
      in if policy = PolicyDisabled then Some GroupMessagesDisabled
         else if policy = PolicyAllowlist \<and> groupConfig = None then Some NotInAllowlist
         else if (case groupConfig of None \<Rightarrow> False | Some gc \<Rightarrow> enabled gc = Some False)
         then Some GroupDisabled
         else if requireMention_of cfg event \<and> \<not> wasMentioned then Some NoMention
         else None)"

definition hasMedia_of :: "host \<Rightarrow> OneBotMessageEvent \<Rightarrow> bool" where
  \<comment> \<open>\<open>hasMedia = mediaPaths.length > 0\<close>\<close>
  "hasMedia_of h event \<longleftrightarrow>
     mediaPaths (materialize_all h (extractMediaFromMessage (ev_message event))) \<noteq> []"

definition processOneBotMessage :: "host \<Rightarrow> OneBotConfig \<Rightarrow> OneBotMessageEvent \<Rightarrow> outcome" where
  \<comment> \<open>up to the call of the reply dispatcher; the route, the session store and the envelope
      formatter are collaborators of the host framework and add nothing to the fields kept
      here. The assignment to \<open>lastSenderContext\<close>, which only the screenshot tool reads, is
      left out\<close>
  "processOneBotMessage h cfg event =
     (let isGroup = (message_type event = Group);
          senderId = show_int (user_id event);
          senderName = (if truthy_str (sender_card event) then sender_card event
                        else if sender_nickname event \<noteq> [] then Some (sender_nickname event)
                        else None);
          chatId = (if isGroup then asc ''group:'' @ opt_int_to_string (group_id event)
                    else asc ''user:'' @ show_int (user_id event));
          extractedMedia = extractMediaFromMessage (ev_message event);
          acc = materialize_all h extractedMedia;
          hasMedia = hasMedia_of h event;
          wasMentioned = was_mentioned cfg event;
          rawBody = raw_body_of h cfg event
      in if rawBody = [] \<and> \<not> hasMedia then Skipped EmptyMessage
         else
           (let rawBody = (if rawBody = [] \<and> hasMedia
                           then join (asc '' '') (map placeholder extractedMedia)
                           else rawBody)
            in case (if isGroup then group_gate cfg event wasMentioned else None) of
                 Some reason \<Rightarrow> Skipped reason
               | None \<Rightarrow>
                   Dispatched
                     \<lparr>RawBody = rawBody,
                      From = asc ''onebot:'' @ senderId,
                      To = asc ''onebot:'' @ chatId,
                      ChatType = (if isGroup then asc ''channel'' else asc ''direct''),
                      SenderName = senderName,
                      SenderId = senderId,
                      WasMentioned = (if isGroup then Some wasMentioned else None),
                      MessageSid = show_int (message_id event),
                      HasInboundAudio = hasInboundAudio acc,
                      MediaPaths = (if hasMedia then Some (mediaPaths acc) else None),
                      MediaUrls = (if hasMedia then Some (mediaUrlsIn acc) else None),
                      MediaTypes = (if hasMedia then Some (mediaTypes acc) else None)\<rparr>))"

definition reply_target_of :: "OneBotMessageEvent \<Rightarrow> reply_target" where
  \<comment> \<open>\<open>messageType\<close>, \<open>targetUserId\<close> and \<open>targetGroupId\<close> of the replies to an event\<close>
  "reply_target_of event =
     (if message_type event = Group
      then \<lparr>t_messageType = Group, targetUserId = None, targetGroupId = group_id event\<rparr>
      else \<lparr>t_messageType = Private, targetUserId = Some (user_id event), targetGroupId = None\<rparr>)"

subsection \<open>handleOneBotWebhook\<close>

datatype webhook_result =
    RuntimeNotInitialized      \<comment> \<open>\<open>getOneBotRuntime\<close> throws: no runtime has been set (runtime.ts)\<close>
  | NotEnabled                 \<comment> \<open>status 500, \<open>OneBot not enabled\<close>\<close>
  | BadBody                    \<comment> \<open>status 400, the body could not be read or parsed\<close>
  | IgnoredNonMessage          \<comment> \<open>acknowledged; \<open>post_type\<close> is not \<open>message\<close>\<close>
  | IgnoredGroupMessage        \<comment> \<open>acknowledged; \<open>message_type\<close> is \<open>group\<close>\<close>
  | Processed outcome          \<comment> \<open>acknowledged; \<open>processOneBotMessage\<close> was started\<close>

definition handleOneBotWebhook ::
  "host \<Rightarrow> bool \<Rightarrow> OneBotConfig option \<Rightarrow> OneBotEvent option \<Rightarrow> webhook_result" where
  \<comment> \<open>\<open>runtime_set\<close> tells whether \<open>setOneBotRuntime\<close> has been called; \<open>parsed\<close> is the decoded
      request body, \<open>None\<close> when \<open>readJsonBody\<close> reports an error; a missing \<open>selfId\<close> is filled
      in from the event before the message is processed\<close>
  "handleOneBotWebhook h runtime_set onebotConfig parsed =
     (if \<not> runtime_set then RuntimeNotInitialized
      else
        (case onebotConfig of
           None \<Rightarrow> NotEnabled
         | Some cfg \<Rightarrow>
             if cfg_enabled cfg \<noteq> Some True then NotEnabled
             else (case parsed of
                     None \<Rightarrow> BadBody
                   | Some (OtherEvent sid) \<Rightarrow> IgnoredNonMessage
                   | Some (MessageEvent msgEvent) \<Rightarrow>
                       if message_type msgEvent = Group then IgnoredGroupMessage
                       else Processed
                              (processOneBotMessage h
                                 (if truthy_id (selfId cfg) then cfg
                                  else cfg\<lparr>selfId := Some (NumId (self_id msgEvent))\<rparr>)
                                 msgEvent))))"
section \<open>Auxiliary definitions for the proofs\<close>

fun least_safe :: "(nat \<times> ustring) list \<Rightarrow> ustring \<Rightarrow> nat option" where
  \<comment> \<open>the least id of the safe set that a list of entries gives a name, if there is one\<close>
  "least_safe [] n = None"
| "least_safe ((i, m) # es) n =
     (if m = n \<and> i \<in> set NAPCAT_SAFE_FACE_IDS
      then (case least_safe es n of None \<Rightarrow> Some i | Some j \<Rightarrow> Some (min i j))
      else least_safe es n)"


definition no_files :: host where
  \<comment> \<open>an environment without any file, in which every download fails\<close>
  "no_files =
     \<lparr>path_sep = [47], fs_access = (\<lambda>p. False), fs_readFile = (\<lambda>p. None),
      readFileSync = (\<lambda>p. None), existsSync = (\<lambda>n p. False),
      decodeURIComponent = (\<lambda>s. Some s), extname = (\<lambda>p. []), basename = (\<lambda>p. p),
      downloadImageToTempFile = (\<lambda>u. None), downloadFileToTemp = (\<lambda>u n. None)\<rparr>"

definition posix_host :: host where
  \<comment> \<open>a POSIX environment whose only file is \<open>/tmp/a.png\<close>, of three bytes; the relative
      path \<open>tmp/a.png\<close> does not resolve (the working directory is not the root)\<close>
  "posix_host =
     no_files\<lparr>fs_access := (\<lambda>p. p = asc ''/tmp/a.png''),
              fs_readFile := (\<lambda>p. if p = asc ''/tmp/a.png'' then Some [137, 80, 78] else None),
              readFileSync := (\<lambda>p. if p = asc ''/tmp/a.png'' then Some [137, 80, 78] else None),
              existsSync := (\<lambda>n p. p = asc ''/tmp/a.png'')\<rparr>"

definition failing_gateway :: gateway where
  \<comment> \<open>a gateway that answers every call with status \<open>failed\<close>\<close>
  "failing_gateway = (\<lambda>trace call. Some \<lparr>status = Failed, retcode = 1200\<rparr>)"

definition ok_gateway :: gateway where
  \<comment> \<open>a gateway that answers every call with status \<open>ok\<close>\<close>
  "ok_gateway = (\<lambda>trace call. Some \<lparr>status = Ok, retcode = 0\<rparr>)"

definition to_user :: "int \<Rightarrow> reply_target" where
  \<comment> \<open>the reply target of a private event\<close>
  "to_user u = \<lparr>t_messageType = Private, targetUserId = Some u, targetGroupId = None\<rparr>"

definition target_call :: "reply_target \<Rightarrow> OneBotMessage list \<Rightarrow> api_call option" where
  \<comment> \<open>the HTTP call by which \<open>sendMsg\<close> sends a segment array to a target, if it makes one\<close>
  "target_call tg segs =
     (if t_messageType tg = Private \<and> truthy_num (targetUserId tg)
      then map_option (\<lambda>u. Send_private_msg u segs) (targetUserId tg)
      else if t_messageType tg = Group \<and> truthy_num (targetGroupId tg)
      then map_option (\<lambda>g. Send_group_msg g segs) (targetGroupId tg)
      else None)"

fun call_message :: "api_call \<Rightarrow> OneBotMessage list" where
  "call_message (Send_private_msg u segs) = segs"
| "call_message (Send_group_msg g segs) = segs"

fun is_media_segment :: "OneBotMessage \<Rightarrow> bool" where
  "is_media_segment (SegImage f u) \<longleftrightarrow> True"
| "is_media_segment (SegRecord f u) \<longleftrightarrow> True"
| "is_media_segment (SegVideo f u) \<longleftrightarrow> True"
| "is_media_segment seg \<longleftrightarrow> False"

definition is_media_call :: "api_call \<Rightarrow> bool" where
  \<comment> \<open>a call that sends a media item (possibly with its caption), as opposed to a text\<close>
  "is_media_call c \<longleftrightarrow> list_ex is_media_segment (call_message c)"

definition new_calls :: "'a io \<Rightarrow> api_call list \<Rightarrow> api_call list" where
  \<comment> \<open>the calls that an action adds to the trace\<close>
  "new_calls act trace = drop (length trace) (snd (act trace))"

fun has_mention_token :: "ustring \<Rightarrow> bool" where
  \<comment> \<open>some \<open>@\<close> is followed by a code unit that is not white space\<close>
  "has_mention_token [] \<longleftrightarrow> False"
| "has_mention_token [c] \<longleftrightarrow> False"
| "has_mention_token (c # d # cs) \<longleftrightarrow> (c = 64 \<and> \<not> js_space d) \<or> has_mention_token (d # cs)"

definition accepted_body :: "outcome \<Rightarrow> ustring option" where
  \<comment> \<open>the body handed to the agent, if the event is dispatched\<close>
  "accepted_body out = (case out of Dispatched ctx \<Rightarrow> Some (RawBody ctx) | Skipped reason \<Rightarrow> None)"

definition group_open_config :: OneBotConfig where
  \<comment> \<open>an enabled configuration with group policy \<open>open\<close>, no group entries and self id 42\<close>
  "group_open_config =
     \<lparr>cfg_enabled = Some True, groupPolicy = Some PolicyOpen, groups = None,
      selfId = Some (NumId 42)\<rparr>"

definition group_event :: "OneBotMessage list \<Rightarrow> OneBotMessageEvent" where
  \<comment> \<open>a message of user 7 in group 900, addressed to the bot 42\<close>
  "group_event msg =
     \<lparr>self_id = 42, message_type = Group, message_id = 1, user_id = 7, group_id = Some 900,
      ev_message = msg, sender_card = None, sender_nickname = asc ''n''\<rparr>"

definition private_event :: "OneBotMessage list \<Rightarrow> OneBotMessageEvent" where
  \<comment> \<open>a private message of user 7 to the bot 42\<close>
  "private_event msg =
     \<lparr>self_id = 42, message_type = Private, message_id = 1, user_id = 7, group_id = None,
      ev_message = msg, sender_card = None, sender_nickname = asc ''n''\<rparr>"

section \<open>Numbers\<close>

text \<open>
  An integer of magnitude below \<open>2^53\<close> is a double, and it is printed as its decimal digits.
\<close>

lemma to_double_small: "n < 9007199254740992 \<Longrightarrow> to_double n = Some n"
  by (simp add: to_double_def)

lemma to_number_small:
  "- 9007199254740992 < i \<Longrightarrow> i < 9007199254740992 \<Longrightarrow> to_number i = Finite i"
proof -
  assume "- 9007199254740992 < i" and "i < 9007199254740992"
  then have "nat \<bar>i\<bar> < 9007199254740992" by linarith
  then have "to_double (nat \<bar>i\<bar>) = Some (nat \<bar>i\<bar>)" by (rule to_double_small)
  then show ?thesis by (simp add: to_number_def)
qed

lemma double_to_string_small: "n < 9007199254740992 \<Longrightarrow> double_to_string n = show_nat n"
  by (simp add: double_to_string_def)

lemma show_int_small:
  "0 \<le> i \<Longrightarrow> i < 9007199254740992 \<Longrightarrow> show_int i = show_nat (nat i)"
proof -
  assume a: "0 \<le> i" "i < 9007199254740992"
  then have "nat i < 9007199254740992" by linarith
  then have "double_to_string (nat i) = show_nat (nat i)" by (rule double_to_string_small)
  with a show ?thesis by (simp add: show_int_def to_number_small number_to_string_def)
qed

lemma show_int_small_neg:
  "- 9007199254740992 < i \<Longrightarrow> i < 0 \<Longrightarrow> show_int i = 45 # show_nat (nat (- i))"
proof -
  assume a: "- 9007199254740992 < i" "i < 0"
  then have "nat (- i) < 9007199254740992" by linarith
  then have "double_to_string (nat (- i)) = show_nat (nat (- i))" by (rule double_to_string_small)
  with a show ?thesis by (simp add: show_int_def to_number_small number_to_string_def)
qed

lemma face_label_small:
  "0 \<le> i \<Longrightarrow> i < 9007199254740992 \<Longrightarrow>
   face_label (to_number i) = (case QQ_FACE_MAP i of Some name \<Rightarrow> name | None \<Rightarrow> show_nat (nat i))"
proof -
  assume a: "0 \<le> i" "i < 9007199254740992"
  then have "number_to_string (to_number i) = show_nat (nat i)"
    using show_int_small[of i] by (simp add: show_int_def)
  with a show ?thesis
    by (simp add: face_label_def face_name_def to_number_small split: option.split)
qed

text \<open>
  Above \<open>2^53\<close> an integer is rounded where it is read, and the double is printed with the
  fewest digits that read back as it, in exponent form from \<open>10^21\<close>.
\<close>

lemma bit_length_double: "0 < n \<Longrightarrow> bit_length (2 * n) = 1 + bit_length n"
  by (subst bit_length.simps) simp

lemma bit_length_double_Suc: "bit_length (2 * n + 1) = 1 + bit_length n"
  by (subst bit_length.simps) simp

lemma bit_length_numeral:
  "bit_length 0 = 0"
  "bit_length 1 = 1"
  "bit_length (Suc 0) = 1"
  "bit_length (numeral Num.One) = 1"
  "bit_length (numeral (Num.Bit0 k)) = 1 + bit_length (numeral k)"
  "bit_length (numeral (Num.Bit1 k)) = 1 + bit_length (numeral k)"
proof -
  show b0: "bit_length 0 = 0" by (subst bit_length.simps) simp
  show b1: "bit_length 1 = 1" by (subst bit_length.simps) (simp add: b0)
  then show "bit_length (Suc 0) = 1" by simp
  from b1 show "bit_length (numeral Num.One) = 1" by simp
  show "bit_length (numeral (Num.Bit0 k)) = 1 + bit_length (numeral k)"
    using bit_length_double[of "numeral k"] by simp
  show "bit_length (numeral (Num.Bit1 k)) = 1 + bit_length (numeral k)"
    using bit_length_double_Suc[of "numeral k"] by simp
qed

lemma to_number_rounds: "to_number 9007199254740993 = Finite 9007199254740992"
  by (simp add: to_number_def to_double_def Let_def bit_length_numeral)

lemma show_int_rounds: "show_int 9007199254740993 = asc ''9007199254740992''"
  by (simp add: show_int_def to_number_def to_double_def Let_def number_to_string_def
        double_to_string_def show_nat.simps decimal_candidate_def asc_def bit_length_numeral)

lemma show_int_exponent: "show_int 99999999999999999999999 = asc ''1e+23''"
  by (simp add: show_int_def to_number_def to_double_def Let_def number_to_string_def
        double_to_string_def show_nat.simps decimal_candidate_def asc_def bit_length_numeral)
section \<open>Properties of the segment codec\<close>

lemma exec_zero: "exec text 0 = search text"
  by (simp add: exec_def split: option.splits)

lemma strip_prefix_iff: "strip_prefix p s = Some r \<longleftrightarrow> s = p @ r"
  by (induction p s rule: strip_prefix.induct) auto

lemma strip_prefix_append [simp]: "strip_prefix p (p @ r) = Some r"
  by (simp add: strip_prefix_iff)

lemma match_name_at_iff:
  "match_name_at s = Some (m, n) \<longleftrightarrow>
     (\<exists>g post. s = name_open @ g @ 93 # post \<and> g \<noteq> [] \<and> 93 \<notin> set g
        \<and> m = MatchName g \<and> n = length name_open + length g + 1)"
proof
  assume "match_name_at s = Some (m, n)"
  then obtain r where r: "s = name_open @ r"
    and g: "takeWhile (\<lambda>c. c \<noteq> 93) r \<noteq> []" "length (takeWhile (\<lambda>c. c \<noteq> 93) r) < length r"
    and m: "m = MatchName (takeWhile (\<lambda>c. c \<noteq> 93) r)"
    and n: "n = length name_open + length (takeWhile (\<lambda>c. c \<noteq> 93) r) + 1"
    by (auto simp: match_name_at_def Let_def strip_prefix_iff split: option.splits if_splits)
  let ?g = "takeWhile (\<lambda>c. c \<noteq> 93) r" and ?d = "dropWhile (\<lambda>c. c \<noteq> 93) r"
  from g(2) have "?d \<noteq> []"
    by (metis append_Nil2 less_irrefl takeWhile_dropWhile_id)
  then obtain c post where d: "?d = c # post" by (cases ?d) auto
  then have "c = 93" using hd_dropWhile[of "\<lambda>c. c \<noteq> 93" r] by auto
  with d have "r = ?g @ 93 # post" by (metis takeWhile_dropWhile_id)
  moreover have "93 \<notin> set ?g" by (auto dest: set_takeWhileD)
  ultimately show "\<exists>g post. s = name_open @ g @ 93 # post \<and> g \<noteq> [] \<and> 93 \<notin> set g
        \<and> m = MatchName g \<and> n = length name_open + length g + 1"
    using r g(1) m n by blast
next
  assume "\<exists>g post. s = name_open @ g @ 93 # post \<and> g \<noteq> [] \<and> 93 \<notin> set g
        \<and> m = MatchName g \<and> n = length name_open + length g + 1"
  then obtain g post where s: "s = name_open @ g @ 93 # post" and g: "g \<noteq> []" "93 \<notin> set g"
    and m: "m = MatchName g" and n: "n = length name_open + length g + 1" by blast
  have "takeWhile (\<lambda>c. c \<noteq> 93) (g @ 93 # post) = g"
    using g(2) by (induction g) auto
  then show "match_name_at s = Some (m, n)"
    using s g m n by (simp add: match_name_at_def Let_def)
qed

lemma match_id_at_iff:
  "match_id_at s = Some (m, n) \<longleftrightarrow>
     (\<exists>g post. s = id_open @ g @ 93 # post \<and> g \<noteq> [] \<and> (\<forall>c\<in>set g. is_digit c)
        \<and> m = MatchId g \<and> n = length id_open + length g + 1)"
proof
  assume "match_id_at s = Some (m, n)"
  then obtain r c post where r: "s = id_open @ r"
    and g: "takeWhile is_digit r \<noteq> []" "dropWhile is_digit r = c # post" "c = 93"
    and m: "m = MatchId (takeWhile is_digit r)"
    and n: "n = length id_open + length (takeWhile is_digit r) + 1"
    by (auto simp: match_id_at_def Let_def strip_prefix_iff split: option.splits if_splits list.splits)
  from g have "r = takeWhile is_digit r @ 93 # post" by (metis takeWhile_dropWhile_id)
  moreover have "\<forall>c\<in>set (takeWhile is_digit r). is_digit c" by (auto dest: set_takeWhileD)
  ultimately show "\<exists>g post. s = id_open @ g @ 93 # post \<and> g \<noteq> [] \<and> (\<forall>c\<in>set g. is_digit c)
        \<and> m = MatchId g \<and> n = length id_open + length g + 1"
    using r g(1) m n by blast
next
  assume "\<exists>g post. s = id_open @ g @ 93 # post \<and> g \<noteq> [] \<and> (\<forall>c\<in>set g. is_digit c)
        \<and> m = MatchId g \<and> n = length id_open + length g + 1"
  then obtain g post where s: "s = id_open @ g @ 93 # post" and g: "g \<noteq> []" "\<forall>c\<in>set g. is_digit c"
    and m: "m = MatchId g" and n: "n = length id_open + length g + 1" by blast
  have nd: "\<not> is_digit 93" by (simp add: is_digit_def)
  have "takeWhile is_digit (g @ 93 # post) = g" "dropWhile is_digit (g @ 93 # post) = 93 # post"
    using g(2) nd by (induction g) auto
  then show "match_id_at s = Some (m, n)"
    using s g m n by (simp add: match_id_at_def Let_def)
qed


lemma emoji_match_at_bounds:
  assumes "emoji_match_at s = Some (m, n)"
  shows "0 < n \<and> n \<le> length s"
proof -
  from assms have "match_name_at s = Some (m, n) \<or> match_id_at s = Some (m, n)"
    by (simp add: emoji_match_at_def split: option.splits)
  then show ?thesis
  proof
    assume "match_name_at s = Some (m, n)"
    then obtain g post where "s = name_open @ g @ 93 # post"
      and "n = length name_open + length g + 1"
      unfolding match_name_at_iff by blast
    then show ?thesis by simp
  next
    assume "match_id_at s = Some (m, n)"
    then obtain g post where "s = id_open @ g @ 93 # post"
      and "n = length id_open + length g + 1"
      unfolding match_id_at_iff by blast
    then show ?thesis by simp
  qed
qed

lemma search_bounds: "search s = Some (i, m, n) \<Longrightarrow> 0 < n \<and> i + n \<le> length s"
proof (induction s arbitrary: i)
  case Nil
  then show ?case by simp
next
  case (Cons c cs)
  show ?case
  proof (cases "emoji_match_at (c # cs)")
    case (Some a)
    with Cons.prems have "emoji_match_at (c # cs) = Some (m, n)" "i = 0"
      by (cases a; simp)+
    then show ?thesis using emoji_match_at_bounds by fastforce
  next
    case None
    with Cons.prems obtain j where "search cs = Some (j, m, n)" "i = Suc j"
      by (cases "search cs") auto
    with Cons.IH show ?thesis by fastforce
  qed
qed

lemma exec_bounds:
  assumes "exec text lastIndex = Some (index, m, n)"
  shows "lastIndex \<le> index \<and> 0 < n \<and> index + n \<le> length text"
proof -
  from assms have le: "lastIndex \<le> length text"
    by (simp add: exec_def split: if_splits)
  with assms obtain i where "search (drop lastIndex text) = Some (i, m, n)" "index = lastIndex + i"
    by (cases "search (drop lastIndex text)") (auto simp: exec_def)
  with search_bounds[of "drop lastIndex text" i m n] le show ?thesis by auto
qed

lemma search_iff:
  "search s \<noteq> None \<longleftrightarrow> (\<exists>pre suf. s = pre @ suf \<and> emoji_match_at suf \<noteq> None)"
proof (induction s)
  case Nil
  show ?case by (simp add: emoji_match_at_def match_name_at_def match_id_at_def name_open_def id_open_def asc_def)
next
  case (Cons c cs)
  show ?case
  proof (cases "emoji_match_at (c # cs)")
    case (Some a)
    then have "search (c # cs) \<noteq> None" by (cases a) simp
    moreover have "\<exists>pre suf. c # cs = pre @ suf \<and> emoji_match_at suf \<noteq> None"
      using Some by (intro exI[of _ "[]"] exI[of _ "c # cs"]) simp
    ultimately show ?thesis by blast
  next
    case None
    have "(\<exists>pre suf. c # cs = pre @ suf \<and> emoji_match_at suf \<noteq> None)
           \<longleftrightarrow> (\<exists>pre suf. cs = pre @ suf \<and> emoji_match_at suf \<noteq> None)"
    proof
      assume "\<exists>pre suf. c # cs = pre @ suf \<and> emoji_match_at suf \<noteq> None"
      then obtain pre suf where ps: "c # cs = pre @ suf" "emoji_match_at suf \<noteq> None" by blast
      show "\<exists>pre suf. cs = pre @ suf \<and> emoji_match_at suf \<noteq> None"
      proof (cases pre)
        case Nil
        with ps None show ?thesis by simp
      next
        case (Cons p pre')
        with ps show ?thesis by auto
      qed
    next
      assume "\<exists>pre suf. cs = pre @ suf \<and> emoji_match_at suf \<noteq> None"
      then obtain pre suf where "cs = pre @ suf" "emoji_match_at suf \<noteq> None" by blast
      then show "\<exists>pre suf. c # cs = pre @ suf \<and> emoji_match_at suf \<noteq> None"
        by (intro exI[of _ "c # pre"] exI[of _ suf]) simp
    qed
    moreover have "search (c # cs) \<noteq> None \<longleftrightarrow> search cs \<noteq> None"
      using None by (auto split: option.splits)
    ultimately show ?thesis using Cons by simp
  qed
qed

lemma match_name_at_ex:
  "(\<exists>m n. match_name_at suf = Some (m, n)) \<longleftrightarrow>
     (\<exists>g post. suf = name_open @ g @ 93 # post \<and> g \<noteq> [] \<and> 93 \<notin> set g)"
  unfolding match_name_at_iff by simp

lemma match_id_at_ex:
  "(\<exists>m n. match_id_at suf = Some (m, n)) \<longleftrightarrow>
     (\<exists>g post. suf = id_open @ g @ 93 # post \<and> g \<noteq> [] \<and> (\<forall>c\<in>set g. is_digit c))"
  unfolding match_id_at_iff by simp

lemma emoji_match_at_iff:
  "emoji_match_at suf \<noteq> None \<longleftrightarrow>
     (\<exists>g post. suf = name_open @ g @ 93 # post \<and> g \<noteq> [] \<and> 93 \<notin> set g)
     \<or> (\<exists>g post. suf = id_open @ g @ 93 # post \<and> g \<noteq> [] \<and> (\<forall>c\<in>set g. is_digit c))"
proof -
  have "emoji_match_at suf \<noteq> None \<longleftrightarrow>
          (\<exists>m n. match_name_at suf = Some (m, n)) \<or> (\<exists>m n. match_id_at suf = Some (m, n))"
    by (cases "match_name_at suf"; cases "match_id_at suf") (auto simp: emoji_match_at_def)
  then show ?thesis by (simp only: match_name_at_ex match_id_at_ex)
qed

lemma hasEmojiCode_iff:
  "hasEmojiCode s \<longleftrightarrow>
     (\<exists>pre g post. s = pre @ name_open @ g @ 93 # post \<and> g \<noteq> [] \<and> 93 \<notin> set g)
     \<or> (\<exists>pre g post. s = pre @ id_open @ g @ 93 # post \<and> g \<noteq> [] \<and> (\<forall>c\<in>set g. is_digit c))"
  (is "_ \<longleftrightarrow> ?N \<or> ?I")
proof
  assume "hasEmojiCode s"
  then obtain pre suf where s: "s = pre @ suf" and m: "emoji_match_at suf \<noteq> None"
    unfolding hasEmojiCode_def search_iff by blast
  from m consider
      (name) g post where "suf = name_open @ g @ 93 # post" "g \<noteq> []" "93 \<notin> set g"
    | (ident) g post where "suf = id_open @ g @ 93 # post" "g \<noteq> []" "\<forall>c\<in>set g. is_digit c"
    unfolding emoji_match_at_iff by blast
  then show "?N \<or> ?I"
  proof cases
    case name
    with s have ?N by blast
    then show ?thesis ..
  next
    case ident
    with s have ?I by blast
    then show ?thesis ..
  qed
next
  assume "?N \<or> ?I"
  then obtain pre suf where "s = pre @ suf" "emoji_match_at suf \<noteq> None"
  proof
    assume ?N
    then obtain pre g post where *: "s = pre @ name_open @ g @ 93 # post" "g \<noteq> []" "93 \<notin> set g"
      by blast
    then have "emoji_match_at (name_open @ g @ 93 # post) \<noteq> None"
      unfolding emoji_match_at_iff by blast
    with * show ?thesis using that by blast
  next
    assume ?I
    then obtain pre g post where *: "s = pre @ id_open @ g @ 93 # post" "g \<noteq> []"
        "\<forall>c\<in>set g. is_digit c"
      by blast
    then have "emoji_match_at (id_open @ g @ 93 # post) \<noteq> None"
      unfolding emoji_match_at_iff by blast
    with * show ?thesis using that by blast
  qed
  then show "hasEmojiCode s" unfolding hasEmojiCode_def search_iff by blast
qed

lemma parse_loop_none: "search s = None \<Longrightarrow> parse_loop s 0 [] = (0, [])"
  by (simp add: parse_loop.simps exec_zero)

lemma extract_single_text: "extractTextFromMessage [SegText t] = t"
  by (simp add: extractTextFromMessage_def)

lemma join_empty_sep: "join [] xs = concat xs"
  by (induction "[]::nat list" xs rule: join.induct) auto

lemma extract_parts_append: "extract_parts (a @ b) = extract_parts a @ extract_parts b"
  by (induction a rule: extract_parts.induct) auto

lemma extractText_append:
  "extractTextFromMessage (a @ b) = extractTextFromMessage a @ extractTextFromMessage b"
  by (simp add: extractTextFromMessage_def join_empty_sep extract_parts_append)

lemma safe_iff: "i \<in> set NAPCAT_SAFE_FACE_IDS \<longleftrightarrow> i < 40 \<or> (96 \<le> i \<and> i < 111)"
  unfolding NAPCAT_SAFE_FACE_IDS_def by (simp only: list.set insert_iff empty_iff) arith

lemma obj_has_plain: "n \<notin> set object_prototype_keys \<Longrightarrow> obj_has m n \<longleftrightarrow> m n \<noteq> None"
  by (auto simp: obj_has_def obj_get_def split: option.splits)

lemma fold_step_lookup:
  "n \<notin> set object_prototype_keys \<Longrightarrow>
   fold name_to_id_step es acc n =
     (case acc n of
        None \<Rightarrow> least_safe es n
      | Some a \<Rightarrow> (case least_safe es n of None \<Rightarrow> Some a | Some b \<Rightarrow> Some (min a b)))"
proof (induction es arbitrary: acc)
  case Nil
  then show ?case by (simp split: option.splits)
next
  case (Cons e es)
  obtain i m where e: "e = (i, m)" by (cases e)
  show ?case
  proof (cases "m = n")
    case True
    with Cons e show ?thesis
      by (auto simp: name_to_id_step_def obj_has_plain obj_get_def min_def split: option.splits)
  next
    case False
    with Cons e show ?thesis
      by (auto simp: name_to_id_step_def split: option.splits)
  qed
qed

lemma build_lookup:
  "n \<notin> set object_prototype_keys \<Longrightarrow> build_name_to_id es n = least_safe es n"
  by (simp add: build_name_to_id_def fold_step_lookup)

lemma fold_step_inherited:
  "n \<in> set object_prototype_keys \<Longrightarrow> acc n = None \<Longrightarrow> fold name_to_id_step es acc n = None"
proof (induction es arbitrary: acc)
  case Nil
  then show ?case by simp
next
  case (Cons e es)
  obtain i m where e: "e = (i, m)" by (cases e)
  from Cons.prems have "name_to_id_step e acc n = None"
    by (auto simp: e name_to_id_step_def obj_has_def obj_get_def)
  with Cons show ?case by simp
qed

lemma build_inherited:
  "n \<in> set object_prototype_keys \<Longrightarrow> build_name_to_id es n = None"
  by (simp add: build_name_to_id_def fold_step_inherited)

lemma getFaceIdByName_inherited:
  "n \<in> set object_prototype_keys \<Longrightarrow> getFaceIdByName n = Inherited"
  by (simp add: getFaceIdByName_def obj_get_def QQ_FACE_NAME_TO_ID_def build_inherited)

lemma least_safe_None:
  "least_safe es n = None \<longleftrightarrow> \<not> (\<exists>j. (j, n) \<in> set es \<and> j \<in> set NAPCAT_SAFE_FACE_IDS)"
  by (induction es n rule: least_safe.induct) (auto split: option.splits)

lemma least_safe_Some:
  "least_safe es n = Some i \<Longrightarrow>
     i \<in> set NAPCAT_SAFE_FACE_IDS \<and> (i, n) \<in> set es
     \<and> (\<forall>j. (j, n) \<in> set es \<and> j \<in> set NAPCAT_SAFE_FACE_IDS \<longrightarrow> i \<le> j)"
proof (induction es n arbitrary: i rule: least_safe.induct)
  case (1 n)
  then show ?case by simp
next
  case (2 k m es n)
  show ?case
  proof (cases "m = n \<and> k \<in> set NAPCAT_SAFE_FACE_IDS")
    case True
    show ?thesis
    proof (cases "least_safe es n")
      case None
      with True "2.prems" have "i = k" by simp
      moreover from None have "\<not> (\<exists>j. (j, n) \<in> set es \<and> j \<in> set NAPCAT_SAFE_FACE_IDS)"
        using least_safe_None[of es n] by blast
      ultimately show ?thesis using True by auto
    next
      case (Some j)
      with True "2.prems" have i: "i = min k j" by simp
      from "2.IH"(1)[OF True Some] have j: "j \<in> set NAPCAT_SAFE_FACE_IDS" "(j, n) \<in> set es"
        "\<forall>l. (l, n) \<in> set es \<and> l \<in> set NAPCAT_SAFE_FACE_IDS \<longrightarrow> j \<le> l" by auto
      show ?thesis
      proof (cases "k \<le> j")
        case True
        with i have "i = k" by simp
        with \<open>m = n \<and> k \<in> set NAPCAT_SAFE_FACE_IDS\<close> j True show ?thesis by fastforce
      next
        case False
        with i have "i = j" by simp
        with j False show ?thesis by fastforce
      qed
    qed
  next
    case False
    with 2 show ?thesis by auto
  qed
qed

lemma parse_loop_end: "length text \<le> i \<Longrightarrow> parse_loop text i segs = (i, segs)"
  by (cases "i = length text") (simp_all add: parse_loop.simps exec_def)

lemma parse_single_name:
  assumes "g \<noteq> []" and "93 \<notin> set g"
  shows "parseTextWithEmoji (name_open @ g @ [93]) =
           (case getFaceIdByName g of
              Own faceId \<Rightarrow> [SegFace (IdNum (int faceId))]
            | Inherited \<Rightarrow> [SegFace (IdInherited g)]
            | Undefined \<Rightarrow> [SegText (name_open @ g @ [93])])"
proof -
  let ?t = "name_open @ g @ [93]"
  have m: "match_name_at ?t = Some (MatchName g, length ?t)"
    unfolding match_name_at_iff using assms by (intro exI[of _ g] exI[of _ "[]"]) simp
  have "?t \<noteq> []" using assms by simp
  then obtain c cs where t: "?t = c # cs" by (cases ?t) auto
  have "search ?t = Some (0, MatchName g, length ?t)"
    unfolding t using m unfolding t by (simp add: emoji_match_at_def)
  then have e: "exec ?t 0 = Some (0, MatchName g, length ?t)" by (simp add: exec_zero)
  show ?thesis
    unfolding parseTextWithEmoji_def
    by (subst parse_loop.simps)
       (simp add: e Let_def parse_loop_end getFaceIdByName_def split: js_prop.splits)
qed

subsection \<open>Text extraction\<close>

lemma face14: "QQ_FACE_MAP 14 = Some [24494, 31505]"
  by (simp add: QQ_FACE_MAP_def QQ_FACE_MAP_entries_def)

text \<open>
  C5, as amended. \<open>extractTextFromMessage\<close> returns the in-order concatenation of the
  contributions of the segments, and exactly the text, face and mface segments contribute:
  a text segment its content; a face segment the bracketed name that the id-to-name table
  gives its id, or the bracketed id, printed as a number is, when the table has no entry
  (a string id is parsed first and is \<open>NaN\<close> when it holds no number; an id from \<open>2^53\<close> on
  is the nearest double, in exponent form from \<open>10^21\<close> and \<open>Infinity\<close> beyond the doubles;
  below \<open>2^53\<close> the id is printed as its decimal digits), \<open>emoji\<close> for a missing id; an
  mface segment a bracketed label made of its summary, else its emoji id, else a fixed
  word. Image, record, video, file, at, reply and all other segments contribute nothing.
\<close>

theorem extractText_contributions:
  "extractTextFromMessage [] = []
   \<and> extractTextFromMessage (a @ b) = extractTextFromMessage a @ extractTextFromMessage b
   \<and> extractTextFromMessage [SegText t] = t
   \<and> extractTextFromMessage [SegFace (IdNum i)] = name_open @ face_label (to_number i) @ [93]
   \<and> extractTextFromMessage [SegFace IdInfinity] = name_open @ asc ''Infinity'' @ [93]
   \<and> extractTextFromMessage [SegFace (IdStr s)] = name_open @ face_label (parseInt10 s) @ [93]
   \<and> extractTextFromMessage [SegFace IdAbsent] = name_open @ asc ''emoji'' @ [93]
   \<and> extractTextFromMessage [SegFace (IdInherited k)] = name_open @ inherited_to_string k @ [93]
   \<and> face_label (Finite j)
       = (case QQ_FACE_MAP j of Some name \<Rightarrow> name | None \<Rightarrow> number_to_string (Finite j))
   \<and> (0 \<le> i \<and> i < 9007199254740992 \<longrightarrow>
        face_label (to_number i)
          = (case QQ_FACE_MAP i of Some name \<Rightarrow> name | None \<Rightarrow> show_nat (nat i)))
   \<and> face_label NaN = asc ''NaN''
   \<and> face_label PlusInfinity = asc ''Infinity''
   \<and> face_label MinusInfinity = asc ''-Infinity''
   \<and> extractTextFromMessage [SegMface u e s'] = mface_text s' e
   \<and> mface_text s' e \<noteq> []
   \<and> extractTextFromMessage [SegImage f u] = []
   \<and> extractTextFromMessage [SegRecord f u] = []
   \<and> extractTextFromMessage [SegVideo f u] = []
   \<and> extractTextFromMessage [SegFile fo uo n sz] = []
   \<and> extractTextFromMessage [SegAt q] = []
   \<and> extractTextFromMessage [SegReply r] = []
   \<and> extractTextFromMessage [SegOther ty] = []"
proof -
  have small: "0 \<le> i \<and> i < 9007199254740992 \<longrightarrow>
        face_label (to_number i)
          = (case QQ_FACE_MAP i of Some name \<Rightarrow> name | None \<Rightarrow> show_nat (nat i))"
    using face_label_small[of i] by blast
  have labels: "face_label (Finite j)
       = (case QQ_FACE_MAP j of Some name \<Rightarrow> name | None \<Rightarrow> number_to_string (Finite j))"
    "face_label NaN = asc ''NaN''" "face_label PlusInfinity = asc ''Infinity''"
    "face_label MinusInfinity = asc ''-Infinity''"
    by (simp_all add: face_label_def face_name_def number_to_string_def)
  have segs: "extractTextFromMessage [] = []"
    "extractTextFromMessage [SegText t] = t"
    "extractTextFromMessage [SegFace (IdNum i)] = name_open @ face_label (to_number i) @ [93]"
    "extractTextFromMessage [SegFace IdInfinity] = name_open @ asc ''Infinity'' @ [93]"
    "extractTextFromMessage [SegFace (IdStr s)] = name_open @ face_label (parseInt10 s) @ [93]"
    "extractTextFromMessage [SegFace IdAbsent] = name_open @ asc ''emoji'' @ [93]"
    "extractTextFromMessage [SegFace (IdInherited k)] = name_open @ inherited_to_string k @ [93]"
    "extractTextFromMessage [SegMface u e s'] = mface_text s' e"
    "mface_text s' e \<noteq> []"
    "extractTextFromMessage [SegImage f u] = []"
    "extractTextFromMessage [SegRecord f u] = []"
    "extractTextFromMessage [SegVideo f u] = []"
    "extractTextFromMessage [SegFile fo uo n sz] = []"
    "extractTextFromMessage [SegAt q] = []"
    "extractTextFromMessage [SegReply r] = []"
    "extractTextFromMessage [SegOther ty] = []"
    by (simp_all add: extractTextFromMessage_def face_text_def name_open_def mface_text_def
          labels(3))
  from small labels(1) extractText_append[of a b] segs(9) show ?thesis
    unfolding segs(1-8) segs(10-16) labels(2-4) by (intro conjI refl)
qed

theorem extractText_contributions_witness:
  "(0::int) \<le> 14 \<and> (14::int) < 9007199254740992
   \<and> extractTextFromMessage [SegText [97], SegFace (IdNum 14), SegImage [102] None, SegText [98]]
       = [97] @ name_open @ [24494, 31505, 93] @ [98]"
proof -
  have "extractTextFromMessage [SegFace (IdNum 14)] = name_open @ [24494, 31505, 93]"
    using extractText_contributions [where i = 14] by (simp add: face14)
  moreover have "extractTextFromMessage [SegText [97]] = [97]"
    "extractTextFromMessage [SegText [98]] = [98]"
    "extractTextFromMessage [SegImage [102] None] = []"
    using extractText_contributions [where t = "[97]"]
          extractText_contributions [where t = "[98]" and f = "[102]" and u = None]
    by simp_all
  moreover have
    "extractTextFromMessage [SegText [97], SegFace (IdNum 14), SegImage [102] None, SegText [98]]
       = extractTextFromMessage [SegText [97]] @ extractTextFromMessage [SegFace (IdNum 14)]
         @ extractTextFromMessage [SegImage [102] None] @ extractTextFromMessage [SegText [98]]"
    using extractText_contributions [where a = "[SegText [97]]"
            and b = "[SegFace (IdNum 14), SegImage [102] None, SegText [98]]"]
          extractText_contributions [where a = "[SegFace (IdNum 14)]"
            and b = "[SegImage [102] None, SegText [98]]"]
          extractText_contributions [where a = "[SegImage [102] None]" and b = "[SegText [98]]"]
    by simp
  ultimately show ?thesis by simp
qed

text \<open>
  An id beyond \<open>2^53\<close> is rounded where it is parsed: a string id of 23 nines is printed in
  exponent form, and the id of \<open>[face:9007199254740993]\<close> is the even neighbour.
\<close>

lemma to_number_23_nines: "to_number 99999999999999999999999 = Finite 99999999999999991611392"
  by (simp add: to_number_def to_double_def Let_def bit_length_numeral)

lemma face_id_exponent_form:
  "extractTextFromMessage [SegFace (IdStr (asc ''99999999999999999999999''))]
     = name_open @ asc ''1e+23'' @ [93]"
proof -
  have "parseInt10 (asc ''99999999999999999999999'') = to_number 99999999999999999999999"
    by (simp add: parseInt10_def asc_def js_space_def is_digit_def digits_value_def)
  then have p: "parseInt10 (asc ''99999999999999999999999'') = Finite 99999999999999991611392"
    by (simp only: to_number_23_nines)
  have n: "QQ_FACE_MAP 99999999999999991611392 = None"
    by (simp add: QQ_FACE_MAP_def QQ_FACE_MAP_entries_def)
  have "number_to_string (Finite 99999999999999991611392) = asc ''1e+23''"
    using show_int_exponent by (simp only: show_int_def to_number_23_nines)
  with p n show ?thesis
    by (simp add: extractTextFromMessage_def face_text_def face_label_def face_name_def
          name_open_def)
qed

lemma face_id_rounded:
  "parseTextWithEmoji (asc ''[face:9007199254740993]'') = [SegFace (IdNum 9007199254740992)]"
proof -
  have m: "emoji_match_at (asc ''[face:9007199254740993]'')
             = Some (MatchId (asc ''9007199254740993''), 23)"
    by (simp add: emoji_match_at_def match_name_at_def match_id_at_def name_open_def id_open_def
          asc_def is_digit_def)
  then have e: "exec (asc ''[face:9007199254740993]'') 0
                  = Some (0, MatchId (asc ''9007199254740993''), 23)"
    by (simp add: exec_zero asc_def)
  have d: "to_double (digits_value (asc ''9007199254740993'')) = Some 9007199254740992"
    by (simp add: digits_value_def asc_def to_double_def Let_def bit_length_numeral)
  have l: "length (asc ''[face:9007199254740993]'') = 23"
    by (simp add: asc_def)
  then have pe: "parse_loop (asc ''[face:9007199254740993]'') 23 segs = (23, segs)" for segs
    by (simp add: parse_loop_end)
  from e show ?thesis
    unfolding parseTextWithEmoji_def
    by (subst parse_loop.simps) (simp add: Let_def pe d l)
qed

text \<open>
  The claim as stated fails on an mface segment: between two text segments it contributes
  its bracketed label, where the claim has the two texts only.
\<close>

theorem extractText_mface_counterexample:
  "extractTextFromMessage [SegText [97], SegMface (Some [104]) None (Some [120]), SegText [98]]
     = [97, 91, 22823, 34920, 24773, 58, 120, 93, 98]
   \<and> extractTextFromMessage [SegText [97], SegMface (Some [104]) None (Some [120]), SegText [98]]
     \<noteq> [97, 98]"
  by (simp add: extractTextFromMessage_def mface_text_def or_str_def truthy_str_def)

subsection \<open>Name resolution\<close>

lemma smile_not_proto: "[24494, 31505] \<notin> set object_prototype_keys"
  by (simp add: object_prototype_keys_def asc_def)

lemma smile: "QQ_FACE_NAME_TO_ID [24494, 31505] = Some 14"
  unfolding QQ_FACE_NAME_TO_ID_def build_lookup[OF smile_not_proto]
  by (simp add: QQ_FACE_MAP_entries_def safe_iff)



lemma getFaceIdByName_plain:
  "n \<notin> set object_prototype_keys \<Longrightarrow>
   getFaceIdByName n =
     (case least_safe QQ_FACE_MAP_entries n of Some i \<Rightarrow> Own i | None \<Rightarrow> Undefined)"
  by (simp add: getFaceIdByName_def obj_get_def QQ_FACE_NAME_TO_ID_def build_lookup
           split: option.splits)

lemma getFaceIdByName_safe_lowest:
  assumes "n \<notin> set object_prototype_keys" and "getFaceIdByName n = Own i"
  shows "i \<in> set NAPCAT_SAFE_FACE_IDS \<and> (i, n) \<in> set QQ_FACE_MAP_entries
         \<and> (\<forall>j. (j, n) \<in> set QQ_FACE_MAP_entries \<and> j \<in> set NAPCAT_SAFE_FACE_IDS \<longrightarrow> i \<le> j)"
proof -
  from assms have "least_safe QQ_FACE_MAP_entries n = Some i"
    by (simp add: getFaceIdByName_plain split: option.splits)
  then show ?thesis by (rule least_safe_Some)
qed

lemma name_without_safe_id_degrades:
  assumes "g \<notin> set object_prototype_keys" and "g \<noteq> []" and "93 \<notin> set g"
    and "\<not> (\<exists>j. (j, g) \<in> set QQ_FACE_MAP_entries \<and> j \<in> set NAPCAT_SAFE_FACE_IDS)"
  shows "parseTextWithEmoji (name_open @ g @ [93]) = [SegText (name_open @ g @ [93])]"
proof -
  from assms(4) have "least_safe QQ_FACE_MAP_entries g = None"
    using least_safe_None[of QQ_FACE_MAP_entries g] by blast
  with assms(1) have "getFaceIdByName g = Undefined" by (simp add: getFaceIdByName_plain)
  with assms(2,3) show ?thesis by (simp add: parse_single_name)
qed

lemma face_14_scenario:
  "extractTextFromMessage [SegFace (IdStr (asc ''14''))] = name_open @ [24494, 31505, 93]
   \<and> parseTextWithEmoji (name_open @ [24494, 31505, 93]) = [SegFace (IdNum 14)]"
proof -
  have "parseInt10 (asc ''14'') = Finite 14"
    by (simp add: parseInt10_def asc_def js_space_def is_digit_def digits_value_def
          to_number_small)
  then have "extractTextFromMessage [SegFace (IdStr (asc ''14''))] = name_open @ [24494, 31505, 93]"
    by (simp add: extractTextFromMessage_def face_text_def face_label_def face_name_def
          name_open_def face14)
  moreover have "getFaceIdByName [24494, 31505] = Own 14"
    by (simp add: getFaceIdByName_def obj_get_def smile)
  then have "parseTextWithEmoji (name_open @ [24494, 31505] @ [93]) = [SegFace (IdNum 14)]"
    by (subst parse_single_name) simp_all
  ultimately show ?thesis by simp
qed

text \<open>
  C6. \<open>QQ_FACE_NAME_TO_ID\<close> is created as \<open>{}\<close>, so the lookup \<open>QQ_FACE_NAME_TO_ID[name]\<close>
  of a name that no safe id carries but that \<open>Object.prototype\<close> has as a member is not
  \<open>undefined\<close>: \<open>getFaceIdByName("constructor")\<close> returns that member, and
  \<open>parseTextWithEmoji\<close> emits a face segment whose id is that member instead of the literal
  bracketed text. For every other name the lemmas above give what the claim states.
\<close>

theorem name_lookup_inherited_member:
  "getFaceIdByName (asc ''constructor'') = Inherited
   \<and> parseTextWithEmoji (name_open @ asc ''constructor]'')
       = [SegFace (IdInherited (asc ''constructor''))]"
proof -
  have k: "asc ''constructor'' \<in> set object_prototype_keys"
    by (simp add: object_prototype_keys_def)
  then have g: "getFaceIdByName (asc ''constructor'') = Inherited"
    by (rule getFaceIdByName_inherited)
  have "asc ''constructor'' \<noteq> []" "93 \<notin> set (asc ''constructor'')"
    by (simp_all add: asc_def)
  then have "parseTextWithEmoji (name_open @ asc ''constructor'' @ [93])
               = [SegFace (IdInherited (asc ''constructor''))]"
    by (simp add: parse_single_name g)
  moreover have "asc ''constructor]'' = asc ''constructor'' @ [93]"
    by (simp add: asc_def)
  ultimately show ?thesis using g by simp
qed

subsection \<open>Text without emoji notation\<close>

text \<open>
  C7. For every string in which the emoji pattern has no match (lemma \<open>hasEmojiCode_iff\<close>
  says what that means), \<open>parseTextWithEmoji\<close> returns exactly one text segment carrying
  the string, also for the empty string; extracting the text of that result gives the
  string back, and encoding it again gives the same single segment.
\<close>

theorem encode_plain_text_roundtrip:
  assumes "\<not> hasEmojiCode s"
  shows "parseTextWithEmoji s = [SegText s]
         \<and> extractTextFromMessage (parseTextWithEmoji s) = s
         \<and> parseTextWithEmoji (extractTextFromMessage (parseTextWithEmoji s)) = [SegText s]"
proof -
  from assms have "search s = None" by (cases "search s") (simp_all add: hasEmojiCode_def)
  then have "parseTextWithEmoji s = [SegText s]"
    by (simp add: parseTextWithEmoji_def parse_loop_none)
  then show ?thesis by (simp add: extract_single_text)
qed

theorem encode_plain_text_roundtrip_witness:
  "\<not> hasEmojiCode [] \<and> parseTextWithEmoji [] = [SegText []]
   \<and> \<not> hasEmojiCode [104, 105, 91, 93]
   \<and> parseTextWithEmoji (extractTextFromMessage (parseTextWithEmoji [104, 105, 91, 93]))
       = [SegText [104, 105, 91, 93]]"
proof -
  have a: "\<not> hasEmojiCode []" by (simp add: hasEmojiCode_def)
  have b: "\<not> hasEmojiCode [104, 105, 91, 93]"
    by (simp add: hasEmojiCode_def emoji_match_at_def match_name_at_def match_id_at_def
                  name_open_def id_open_def asc_def)
  from a b encode_plain_text_roundtrip [OF a] encode_plain_text_roundtrip [OF b]
  show ?thesis by blast
qed
section \<open>Properties of the outbound reconciler\<close>

lemma startsWith_append [simp]: "startsWith (p @ r) p"
  by (induction p) (auto simp: startsWith_def)

lemma startsWith_iff: "startsWith s p \<longleftrightarrow> (\<exists>r. s = p @ r)"
proof -
  have "strip_prefix p s \<noteq> None \<longleftrightarrow> (\<exists>r. s = p @ r)"
    by (induction p s rule: strip_prefix.induct) auto
  then show ?thesis by (simp add: startsWith_def)
qed

lemma file_uri_three_slashes:
  assumes "\<not> startsWith p (asc ''file://'')"
  shows "localFileToBase64Url h (asc ''file:///'' @ p) = localFileToBase64Url h p"
proof -
  have "\<not> startsWith p (asc ''file:///'')"
    using assms by (auto simp: startsWith_iff asc_def)
  moreover have "drop 8 (asc ''file:///'' @ p) = p" by (simp add: asc_def)
  ultimately have "normalize_local_path sep (asc ''file:///'' @ p) = normalize_local_path sep p" for sep
    using assms by (simp add: normalize_local_path_def)
  then show ?thesis by (simp add: localFileToBase64Url_def)
qed

lemma file_uri_two_slashes:
  assumes "\<not> startsWith p (asc ''file://'')" and "\<not> startsWith p (asc ''/'')"
  shows "localFileToBase64Url h (asc ''file://'' @ p) = localFileToBase64Url h p"
proof -
  have a: "\<not> startsWith p (asc ''file:///'')"
    using assms by (auto simp: startsWith_iff asc_def)
  have b: "\<not> startsWith (asc ''file://'' @ p) (asc ''file:///'')"
    using assms(2) by (auto simp: startsWith_iff asc_def)
  have "drop 7 (asc ''file://'' @ p) = p" by (simp add: asc_def)
  with a b have "normalize_local_path sep (asc ''file://'' @ p) = normalize_local_path sep p" for sep
    using assms by (simp add: normalize_local_path_def)
  then show ?thesis by (simp add: localFileToBase64Url_def)
qed


lemma sendMsg_target:
  "sendMsg gw \<lparr>messageType = t_messageType tg, userId = targetUserId tg,
              groupId = targetGroupId tg, message = msg\<rparr> trace =
     (case target_call tg (as_segments msg) of
        None \<Rightarrow> (Inl InvalidMessageParams, trace)
      | Some c \<Rightarrow> callOneBotApi gw c trace)"
  by (cases "t_messageType tg"; cases "targetUserId tg"; cases "targetGroupId tg")
     (simp_all add: sendMsg_def target_call_def Let_def truthy_num_def sendPrivateMsg_def
        sendGroupMsg_def as_segments_def)

lemma send_text_reply_plain:
  assumes "\<not> hasEmojiCode txt"
  shows "snd (send_text_reply gw tg txt trace) =
           trace @ (case target_call tg [SegText txt] of Some c \<Rightarrow> [c] | None \<Rightarrow> [])"
  using assms
  by (simp add: send_text_reply_def sendMsg_target as_segments_def callOneBotApi_def
           split: option.splits)

lemma send_text_reply_retry:
  assumes "hasEmojiCode txt" and "target_call tg (parseTextWithEmoji txt) = Some c1"
    and "gw trace c1 = Some r" and "status r \<noteq> Ok"
  shows "\<exists>c2. target_call tg [SegText txt] = Some c2
              \<and> snd (send_text_reply gw tg txt trace) = trace @ [c1, c2]"
proof -
  from assms(2) obtain c2 where c2: "target_call tg [SegText txt] = Some c2"
    by (auto simp: target_call_def split: if_splits)
  with assms show ?thesis
    by (simp add: send_text_reply_def sendMsg_target as_segments_def callOneBotApi_def
             split: option.splits)
qed

lemma send_text_reply_emoji_other:
  assumes "hasEmojiCode txt" and "target_call tg (parseTextWithEmoji txt) = Some c1"
    and "gw trace c1 = None \<or> (\<exists>r. gw trace c1 = Some r \<and> status r = Ok)"
  shows "snd (send_text_reply gw tg txt trace) = trace @ [c1]"
  using assms
  by (auto simp: send_text_reply_def sendMsg_target as_segments_def callOneBotApi_def
           split: option.splits)

lemma sendMsg_calls:
  "\<exists>new. snd (sendMsg gw params trace) = trace @ new \<and> length new \<le> 1
         \<and> (\<forall>c\<in>set new. call_message c = as_segments (message params))"
  by (cases "messageType params"; cases "userId params"; cases "groupId params")
     (simp_all add: sendMsg_def Let_def truthy_num_def sendPrivateMsg_def sendGroupMsg_def
        callOneBotApi_def as_segments_def)

lemma parse_loop_no_media:
  "(\<forall>s\<in>set segs. \<not> is_media_segment s) \<Longrightarrow>
   (\<forall>s\<in>set (snd (parse_loop t i segs)). \<not> is_media_segment s)"
proof (induction "Suc (length t) - i" arbitrary: i segs rule: less_induct)
  case less
  show ?case
  proof (cases "exec t i")
    case None
    then have "parse_loop t i segs = (i, segs)" by (subst parse_loop.simps) simp
    with less.prems show ?thesis by simp
  next
    case (Some a)
    obtain index m n where a: "a = (index, m, n)" by (cases a)
    with Some have b: "i \<le> index" "0 < n" "index + n \<le> length t"
      using exec_bounds[of t i index m n] by auto
    define before where "before =
        (if i < index
         then (let beforeText = take (index - i) (drop i t)
               in if beforeText \<noteq> [] then [SegText beforeText] else [])
         else [])"
    define seg where "seg =
        (case m of
           MatchName faceName \<Rightarrow>
             (case obj_get QQ_FACE_NAME_TO_ID faceName of
                Own faceId \<Rightarrow> [SegFace (IdNum (int faceId))]
              | Inherited \<Rightarrow> [SegFace (IdInherited faceName)]
              | Undefined \<Rightarrow> [SegText (take n (drop index t))])
         | MatchId ds \<Rightarrow>
             [SegFace (case to_double (digits_value ds) of
                         Some v \<Rightarrow> IdNum (int v)
                       | None \<Rightarrow> IdInfinity)])"
    have step: "parse_loop t i segs = parse_loop t (index + n) (segs @ before @ seg)"
      using Some a b by (subst parse_loop.simps) (simp add: Let_def before_def seg_def)
    have "\<forall>s\<in>set before. \<not> is_media_segment s"
      by (simp add: before_def Let_def)
    moreover have "\<forall>s\<in>set seg. \<not> is_media_segment s"
      by (simp add: seg_def split: emoji_match.splits js_prop.splits)
    ultimately have "\<forall>s\<in>set (segs @ before @ seg). \<not> is_media_segment s"
      using less.prems by auto
    moreover have "Suc (length t) - (index + n) < Suc (length t) - i" using b by simp
    ultimately show ?thesis using less.hyps step by presburger
  qed
qed

lemma parseTextWithEmoji_no_media: "\<forall>s\<in>set (parseTextWithEmoji t). \<not> is_media_segment s"
proof -
  have "\<forall>s\<in>set (snd (parse_loop t 0 [])). \<not> is_media_segment s"
    by (rule parse_loop_no_media) simp
  then show ?thesis
    by (cases "parse_loop t 0 []") (auto simp: parseTextWithEmoji_def Let_def)
qed

lemma is_media_call_iff: "is_media_call c \<longleftrightarrow> (\<exists>s\<in>set (call_message c). is_media_segment s)"
  by (simp add: is_media_call_def list_ex_iff)

lemma send_text_reply_calls:
  "\<exists>new. snd (send_text_reply gw tg txt trace) = trace @ new \<and> length new \<le> 2
         \<and> (\<forall>c\<in>set new. \<not> is_media_call c)"
proof -
  let ?p1 = "\<lparr>messageType = t_messageType tg, userId = targetUserId tg,
              groupId = targetGroupId tg,
              message = (if hasEmojiCode txt then MsgSegments (parseTextWithEmoji txt)
                         else MsgString txt)\<rparr>"
  let ?p2 = "\<lparr>messageType = t_messageType tg, userId = targetUserId tg,
              groupId = targetGroupId tg, message = MsgString txt\<rparr>"
  obtain r1 t1 where s1: "sendMsg gw ?p1 trace = (r1, t1)" by (cases "sendMsg gw ?p1 trace")
  obtain r2 t2 where s2: "sendMsg gw ?p2 t1 = (r2, t2)" by (cases "sendMsg gw ?p2 t1")
  from sendMsg_calls[of gw ?p1 trace] s1 obtain n1 where
    n1: "t1 = trace @ n1" "length n1 \<le> 1" "\<forall>c\<in>set n1. call_message c = as_segments (message ?p1)"
    by auto
  from sendMsg_calls[of gw ?p2 t1] s2 obtain n2 where
    n2: "t2 = t1 @ n2" "length n2 \<le> 1" "\<forall>c\<in>set n2. call_message c = as_segments (message ?p2)"
    by auto
  have m1: "\<forall>c\<in>set n1. \<not> is_media_call c"
    using n1(3) parseTextWithEmoji_no_media[of "txt"]
    by (auto simp: is_media_call_iff as_segments_def)
  have m2: "\<forall>c\<in>set n2. \<not> is_media_call c"
    using n2(3) by (auto simp: is_media_call_iff as_segments_def)
  have "snd (send_text_reply gw tg txt trace) = t1 \<or> snd (send_text_reply gw tg txt trace) = t2"
    using s1 s2 by (auto simp: send_text_reply_def Let_def split: sum.splits)
  then show ?thesis
  proof
    assume "snd (send_text_reply gw tg txt trace) = t1"
    with n1 m1 show ?thesis by (intro exI[of _ n1]) simp
  next
    assume "snd (send_text_reply gw tg txt trace) = t2"
    with n1 n2 m1 m2 show ?thesis by (intro exI[of _ "n1 @ n2"]) auto
  qed
qed

lemma media_send_calls:
  assumes "is_media_segment (seg (mp_file p))"
  shows "\<exists>new. snd (sendMsg gw (media_message seg p) trace) = trace @ new \<and> length new \<le> 1
              \<and> (\<forall>c\<in>set new. is_media_call c)"
proof -
  from sendMsg_calls[of gw "media_message seg p" trace] obtain new where
    n: "snd (sendMsg gw (media_message seg p) trace) = trace @ new" "length new \<le> 1"
       "\<forall>c\<in>set new. call_message c = as_segments (message (media_message seg p))"
    by blast
  have "\<forall>c\<in>set new. is_media_call c"
    using n(3) assms by (auto simp: is_media_call_iff media_message_def as_segments_def)
  with n show ?thesis by blast
qed

lemma deliverMediaToOneBot_calls:
  "\<exists>new. snd (deliverMediaToOneBot h gw p trace) = trace @ new
         \<and> length (filter is_media_call new) \<le> 1
         \<and> length (filter (\<lambda>c. \<not> is_media_call c) new)
             \<le> (if truthy_str (d_caption p) then 1 else 0)"
proof (cases "if isLocalFilePath (d_mediaUrl p) then localFileToBase64Url h (d_mediaUrl p)
              else Some (d_mediaUrl p)")
  case None
  then have "snd (deliverMediaToOneBot h gw p trace) = trace"
    by (simp add: deliverMediaToOneBot_def Let_def)
  then show ?thesis by simp
next
  case (Some resolvedUrl)
  define mp where "mp = \<lparr>mp_messageType = d_messageType p, mp_userId = d_userId p,
                        mp_groupId = d_groupId p, mp_file = resolvedUrl, mp_text = d_caption p\<rparr>"
  consider (video) "detectMediaKind (d_mediaUrl p) = KVideo"
    | (audio) "detectMediaKind (d_mediaUrl p) = KAudio"
    | (image) "detectMediaKind (d_mediaUrl p) \<noteq> KVideo" "detectMediaKind (d_mediaUrl p) \<noteq> KAudio"
    by blast
  then show ?thesis
  proof cases
    case video
    from media_send_calls[of "\<lambda>f. SegVideo f None" mp gw trace] obtain new where
      n: "snd (sendVideo gw mp trace) = trace @ new" "length new \<le> 1" "\<forall>c\<in>set new. is_media_call c"
      by (auto simp: sendVideo_def)
    have "snd (deliverMediaToOneBot h gw p trace) = snd (sendVideo gw mp trace)"
      using Some video
      by (cases "sendVideo gw mp trace")
         (simp add: deliverMediaToOneBot_def Let_def mp_def split: sum.splits)
    with n show ?thesis by (intro exI[of _ new]) (simp add: filter_False)
  next
    case image
    from media_send_calls[of "\<lambda>f. SegImage f None" mp gw trace] obtain new where
      n: "snd (sendImage gw mp trace) = trace @ new" "length new \<le> 1" "\<forall>c\<in>set new. is_media_call c"
      by (auto simp: sendImage_def)
    have "snd (deliverMediaToOneBot h gw p trace) = snd (sendImage gw mp trace)"
      using Some image
      by (cases "sendImage gw mp trace")
         (simp add: deliverMediaToOneBot_def Let_def mp_def split: sum.splits)
    with n show ?thesis by (intro exI[of _ new]) (simp add: filter_False)
  next
    case audio
    from media_send_calls[of "\<lambda>f. SegRecord f None" "mp\<lparr>mp_text := None\<rparr>" gw trace] obtain new where
      n: "snd (sendRecord gw mp trace) = trace @ new" "length new \<le> 1" "\<forall>c\<in>set new. is_media_call c"
      by (auto simp: sendRecord_def)
    let ?cap = "\<lparr>messageType = d_messageType p, userId = d_userId p, groupId = d_groupId p,
                 message = MsgString (case d_caption p of Some c \<Rightarrow> c | None \<Rightarrow> [])\<rparr>"
    from sendMsg_calls[of gw ?cap "trace @ new"] obtain new2 where
      n2: "snd (sendMsg gw ?cap (trace @ new)) = (trace @ new) @ new2" "length new2 \<le> 1"
          "\<forall>c\<in>set new2. call_message c = as_segments (message ?cap)"
      by blast
    have m2: "\<forall>c\<in>set new2. \<not> is_media_call c"
      using n2(3) by (auto simp: is_media_call_iff as_segments_def)
    have "snd (deliverMediaToOneBot h gw p trace) = trace @ new
          \<or> (truthy_str (d_caption p) \<and> snd (deliverMediaToOneBot h gw p trace) = (trace @ new) @ new2)"
      using Some audio n(1) n2(1)
      by (cases "sendRecord gw mp trace"; cases "sendMsg gw ?cap (trace @ new)")
         (auto simp: deliverMediaToOneBot_def Let_def mp_def split: sum.splits)
    then show ?thesis
    proof
      assume "snd (deliverMediaToOneBot h gw p trace) = trace @ new"
      with n show ?thesis by (intro exI[of _ new]) (simp add: filter_False)
    next
      assume "truthy_str (d_caption p) \<and> snd (deliverMediaToOneBot h gw p trace) = (trace @ new) @ new2"
      with n n2 m2 show ?thesis by (intro exI[of _ "new @ new2"]) (simp add: filter_False)
    qed
  qed
qed

lemma deliver_media_loop_calls:
  "\<exists>new. snd (deliver_media_loop h gw tg cap i urls trace) = trace @ new
         \<and> length (filter is_media_call new) \<le> length urls
         \<and> length (filter (\<lambda>c. \<not> is_media_call c) new)
             \<le> (if i = 0 \<and> truthy_str cap then 1 else 0)"
proof (induction urls arbitrary: i trace)
  case Nil
  show ?case by simp
next
  case (Cons entry rest)
  show ?case
  proof (cases "entry = []")
    case True
    from Cons[of "Suc i" trace] obtain new where
      "snd (deliver_media_loop h gw tg cap (Suc i) rest trace) = trace @ new"
      "length (filter is_media_call new) \<le> length rest"
      "length (filter (\<lambda>c. \<not> is_media_call c) new) \<le> 0"
      by auto
    with True show ?thesis by (intro exI[of _ new]) simp
  next
    case False
    let ?p = "\<lparr>d_messageType = t_messageType tg, d_userId = targetUserId tg,
               d_groupId = targetGroupId tg, d_mediaUrl = entry,
               d_caption = (if i = 0 then cap else None)\<rparr>"
    obtain sent t1 where d: "deliverMediaToOneBot h gw ?p trace = (sent, t1)"
      by (cases "deliverMediaToOneBot h gw ?p trace")
    from deliverMediaToOneBot_calls[of h gw ?p trace] d obtain n1 where
      n1: "t1 = trace @ n1" "length (filter is_media_call n1) \<le> 1"
          "length (filter (\<lambda>c. \<not> is_media_call c) n1) \<le> (if i = 0 \<and> truthy_str cap then 1 else 0)"
      by (auto simp: truthy_str_def split: if_splits)
    from Cons[of "Suc i" t1] obtain n2 where
      n2: "snd (deliver_media_loop h gw tg cap (Suc i) rest t1) = t1 @ n2"
          "length (filter is_media_call n2) \<le> length rest"
          "length (filter (\<lambda>c. \<not> is_media_call c) n2) \<le> 0"
      by auto
    have "snd (deliver_media_loop h gw tg cap i (entry # rest) trace) = trace @ (n1 @ n2)"
      using False d n1(1) n2(1) by simp
    with n1 n2 show ?thesis by (intro exI[of _ "n1 @ n2"]) simp
  qed
qed

lemma deliver_calls:
  "\<exists>new. snd (deliver h gw tg payload trace) = trace @ new
         \<and> length (filter is_media_call new) \<le> length (payloadMediaUrls payload)
         \<and> length (filter (\<lambda>c. \<not> is_media_call c) new) \<le> 2"
proof -
  let ?txt = "payload_text payload" and ?urls = "payloadMediaUrls payload"
  consider (nothing) "?txt = []" "?urls = []"
    | (voice) first rest where "audioAsVoice payload" "?urls = first # rest" "first \<noteq> []"
        "detectMediaKind first = KAudio"
    | (media) "?urls \<noteq> []"
        "\<not> (audioAsVoice payload \<and> (case ?urls of [] \<Rightarrow> False
              | firstMedia # _ \<Rightarrow> firstMedia \<noteq> [] \<and> detectMediaKind firstMedia = KAudio))"
    | (textonly) "?txt \<noteq> []" "?urls = []"
    by (cases ?urls) auto
  then show ?thesis
  proof cases
    case nothing
    then show ?thesis by (simp add: deliver_def Let_def)
  next
    case voice
    let ?p = "\<lparr>d_messageType = t_messageType tg, d_userId = targetUserId tg,
               d_groupId = targetGroupId tg, d_mediaUrl = first, d_caption = None\<rparr>"
    from deliverMediaToOneBot_calls[of h gw ?p trace] obtain new where
      n: "snd (deliverMediaToOneBot h gw ?p trace) = trace @ new"
         "length (filter is_media_call new) \<le> 1"
         "length (filter (\<lambda>c. \<not> is_media_call c) new) \<le> 0"
      by (auto simp: truthy_str_def)
    have "snd (deliver h gw tg payload trace) = snd (deliverMediaToOneBot h gw ?p trace)"
      using voice by (cases "deliverMediaToOneBot h gw ?p trace") (simp add: deliver_def Let_def)
    with n voice show ?thesis by (intro exI[of _ new]) simp
  next
    case media
    let ?cap = "if ?txt \<noteq> [] then Some ?txt else None"
    from deliver_media_loop_calls[of h gw tg ?cap 0 ?urls trace] obtain new where
      n: "snd (deliver_media_loop h gw tg ?cap 0 ?urls trace) = trace @ new"
         "length (filter is_media_call new) \<le> length ?urls"
         "length (filter (\<lambda>c. \<not> is_media_call c) new) \<le> 1"
      by (auto split: if_splits)
    have "snd (deliver h gw tg payload trace) = snd (deliver_media_loop h gw tg ?cap 0 ?urls trace)"
      using media by (auto simp: deliver_def Let_def)
    with n show ?thesis by (intro exI[of _ new]) simp
  next
    case textonly
    from send_text_reply_calls[of gw tg ?txt trace] obtain new where
      n: "snd (send_text_reply gw tg ?txt trace) = trace @ new" "length new \<le> 2"
         "\<forall>c\<in>set new. \<not> is_media_call c"
      by blast
    have "snd (deliver h gw tg payload trace) = snd (send_text_reply gw tg ?txt trace)"
      using textonly by (simp add: deliver_def Let_def)
    moreover have "filter is_media_call new = []" "filter (\<lambda>c. \<not> is_media_call c) new = new"
      using n(3) by (simp_all add: filter_empty_conv)
    ultimately show ?thesis using n by (intro exI[of _ new]) simp
  qed
qed

lemma deliver_text_only:
  assumes "payloadMediaUrls payload = []" and "payload_text payload \<noteq> []"
  shows "deliver h gw tg payload trace = send_text_reply gw tg (payload_text payload) trace"
  using assms by (simp add: deliver_def Let_def)

lemma hasEmojiCode_nonempty: "hasEmojiCode t \<Longrightarrow> t \<noteq> []"
  by (auto simp: hasEmojiCode_def)

lemma voice_reply_single_send:
  assumes "audioAsVoice payload" and "payloadMediaUrls payload = first # rest"
    and "first \<noteq> []" and "detectMediaKind first = KAudio"
  shows "snd (deliver h gw tg payload trace) =
           snd (deliverMediaToOneBot h gw
                  \<lparr>d_messageType = t_messageType tg, d_userId = targetUserId tg,
                   d_groupId = targetGroupId tg, d_mediaUrl = first, d_caption = None\<rparr> trace)
         \<and> length (new_calls (deliver h gw tg payload) trace) \<le> 1
         \<and> (\<forall>c\<in>set (new_calls (deliver h gw tg payload) trace). is_media_call c)"
proof -
  let ?p = "\<lparr>d_messageType = t_messageType tg, d_userId = targetUserId tg,
             d_groupId = targetGroupId tg, d_mediaUrl = first, d_caption = None\<rparr>"
  from deliverMediaToOneBot_calls[of h gw ?p trace] obtain new where
    n: "snd (deliverMediaToOneBot h gw ?p trace) = trace @ new"
       "length (filter is_media_call new) \<le> 1"
       "length (filter (\<lambda>c. \<not> is_media_call c) new) \<le> 0"
    by (auto simp: truthy_str_def)
  have e: "snd (deliver h gw tg payload trace) = snd (deliverMediaToOneBot h gw ?p trace)"
    using assms by (cases "deliverMediaToOneBot h gw ?p trace") (simp add: deliver_def Let_def)
  from n(3) have all: "\<forall>c\<in>set new. is_media_call c" by (simp add: filter_empty_conv)
  then have "filter is_media_call new = new" by simp
  with n(2) have "length new \<le> 1" by simp
  with e n(1) all show ?thesis by (simp add: new_calls_def)
qed

subsection \<open>Voice replies\<close>

text \<open>
  C2. When the voice-intent flag is set and the first media entry is audio, \<open>deliver\<close>
  hands that entry to \<open>deliverMediaToOneBot\<close> once and returns (lemma
  \<open>voice_reply_single_send\<close>). It returns whether or not the send succeeded:
  \<open>deliverMediaToOneBot\<close> reports a failure by its boolean result, which \<open>deliver\<close> does not
  read, and throws nothing that the \<open>catch\<close> written for the fallback could receive. With a
  gateway that answers \<open>failed\<close>, the payload with text \<open>hi\<close> and one audio URL produces the
  voice send and nothing else: the general media and text path is not entered.
\<close>

theorem voice_failure_no_fallback:
  "deliver no_files failing_gateway (to_user 1)
     \<lparr>reply_text = Some (asc ''hi''), mediaUrls = Some [asc ''http://h/a.mp3''],
      mediaUrl = None, audioAsVoice = True\<rparr> []
   = ((), [Send_private_msg 1 [SegRecord (asc ''http://h/a.mp3'') None]])"
  by (simp add: deliver_def deliverMediaToOneBot_def detectMediaKind_def toLowerCase_def
        lower_unit_def ext_here_def isLocalFilePath_def startsWith_def is_drive_path_def
        is_ascii_letter_def sendRecord_def media_message_def sendMsg_def truthy_num_def
        sendPrivateMsg_def callOneBotApi_def as_segments_def failing_gateway_def to_user_def
        trim_def js_space_def asc_def Let_def truthy_str_def payload_text_def
        payloadMediaUrls_def)

subsection \<open>Retries\<close>

text \<open>
  C8. A reply without media whose text matches the emoji notation is first sent as
  segments; when the gateway answers that call with a status other than \<open>ok\<close>, exactly one
  more call follows, carrying the same text as one plain text segment. A reply without
  media whose text does not match the notation makes at most one call, whatever the
  answer. In every pass the trace only grows, each entry of the media list accounts for at
  most one media call, and at most two calls carry text alone.
\<close>

theorem text_send_retried_once:
  "(payloadMediaUrls payload = [] \<and> hasEmojiCode (payload_text payload)
      \<and> target_call tg (parseTextWithEmoji (payload_text payload)) = Some c1
      \<and> gw trace c1 = Some r \<and> status r \<noteq> Ok
    \<longrightarrow> (\<exists>c2. target_call tg [SegText (payload_text payload)] = Some c2
             \<and> snd (deliver h gw tg payload trace) = trace @ [c1, c2]))
   \<and> (payloadMediaUrls payload = [] \<and> \<not> hasEmojiCode (payload_text payload)
      \<longrightarrow> snd (deliver h gw tg payload trace)
            = trace @ (if payload_text payload = [] then []
                       else (case target_call tg [SegText (payload_text payload)] of
                               Some c \<Rightarrow> [c] | None \<Rightarrow> [])))
   \<and> take (length trace) (snd (deliver h gw tg payload trace)) = trace
   \<and> length (filter is_media_call (new_calls (deliver h gw tg payload) trace))
       \<le> length (payloadMediaUrls payload)
   \<and> length (filter (\<lambda>c. \<not> is_media_call c) (new_calls (deliver h gw tg payload) trace)) \<le> 2"
proof (intro conjI impI)
  assume a: "payloadMediaUrls payload = [] \<and> hasEmojiCode (payload_text payload)
      \<and> target_call tg (parseTextWithEmoji (payload_text payload)) = Some c1
      \<and> gw trace c1 = Some r \<and> status r \<noteq> Ok"
  then have "deliver h gw tg payload trace = send_text_reply gw tg (payload_text payload) trace"
    by (simp add: deliver_text_only hasEmojiCode_nonempty)
  with a show "\<exists>c2. target_call tg [SegText (payload_text payload)] = Some c2
             \<and> snd (deliver h gw tg payload trace) = trace @ [c1, c2]"
    using send_text_reply_retry[of "payload_text payload" tg c1 gw trace r] by simp
next
  assume a: "payloadMediaUrls payload = [] \<and> \<not> hasEmojiCode (payload_text payload)"
  show "snd (deliver h gw tg payload trace)
            = trace @ (if payload_text payload = [] then []
                       else (case target_call tg [SegText (payload_text payload)] of
                               Some c \<Rightarrow> [c] | None \<Rightarrow> []))"
  proof (cases "payload_text payload = []")
    case True
    with a show ?thesis by (simp add: deliver_def Let_def)
  next
    case False
    with a show ?thesis by (simp add: deliver_text_only send_text_reply_plain)
  qed
next
  from deliver_calls[of h gw tg payload trace] obtain new where
    n: "snd (deliver h gw tg payload trace) = trace @ new"
       "length (filter is_media_call new) \<le> length (payloadMediaUrls payload)"
       "length (filter (\<lambda>c. \<not> is_media_call c) new) \<le> 2"
    by blast
  then have nc: "new_calls (deliver h gw tg payload) trace = new" by (simp add: new_calls_def)
  show "take (length trace) (snd (deliver h gw tg payload trace)) = trace" using n(1) by simp
  show "length (filter is_media_call (new_calls (deliver h gw tg payload) trace))
       \<le> length (payloadMediaUrls payload)" using n(2) nc by simp
  show "length (filter (\<lambda>c. \<not> is_media_call c) (new_calls (deliver h gw tg payload) trace)) \<le> 2"
    using n(3) nc by simp
qed

theorem text_send_retried_once_witness:
  "snd (deliver no_files failing_gateway (to_user 1)
          \<lparr>reply_text = Some (asc ''[face:14]''), mediaUrls = None, mediaUrl = None,
           audioAsVoice = False\<rparr> [])
     = [Send_private_msg 1 [SegFace (IdNum 14)],
        Send_private_msg 1 [SegText (asc ''[face:14]'')]]"
proof -
  let ?payload = "\<lparr>reply_text = Some (asc ''[face:14]''), mediaUrls = None, mediaUrl = None,
                   audioAsVoice = False\<rparr>"
  have t: "payload_text ?payload = asc ''[face:14]''"
    by (simp add: payload_text_def trim_def js_space_def asc_def)
  have u: "payloadMediaUrls ?payload = []" by (simp add: payloadMediaUrls_def)
  have m: "emoji_match_at (asc ''[face:14]'') = Some (MatchId (asc ''14''), 9)"
    by (simp add: emoji_match_at_def match_name_at_def match_id_at_def name_open_def id_open_def
          asc_def is_digit_def)
  have e: "hasEmojiCode (asc ''[face:14]'')"
    using m by (simp add: hasEmojiCode_def asc_def)
  have "exec (asc ''[face:14]'') 0 = Some (0, MatchId (asc ''14''), 9)"
    using m by (simp add: exec_zero asc_def)
  then have p: "parseTextWithEmoji (asc ''[face:14]'') = [SegFace (IdNum 14)]"
    unfolding parseTextWithEmoji_def
    by (subst parse_loop.simps)
       (simp add: Let_def parse_loop_end digits_value_def asc_def to_double_small)
  have c: "target_call (to_user 1) (parseTextWithEmoji (asc ''[face:14]''))
             = Some (Send_private_msg 1 [SegFace (IdNum 14)])"
    by (simp add: p target_call_def to_user_def truthy_num_def)
  have g: "failing_gateway [] (Send_private_msg 1 [SegFace (IdNum 14)])
             = Some \<lparr>status = Failed, retcode = 1200\<rparr>"
    by (simp add: failing_gateway_def)
  from text_send_retried_once [of ?payload "to_user 1" "Send_private_msg 1 [SegFace (IdNum 14)]"
          failing_gateway "[]" "\<lparr>status = Failed, retcode = 1200\<rparr>" no_files]
  have "\<exists>c2. target_call (to_user 1) [SegText (asc ''[face:14]'')] = Some c2
            \<and> snd (deliver no_files failing_gateway (to_user 1) ?payload [])
                = [Send_private_msg 1 [SegFace (IdNum 14)], c2]"
    using t u e c g by simp
  then show ?thesis by (auto simp: target_call_def to_user_def truthy_num_def)
qed

subsection \<open>Local files\<close>

text \<open>
  C9. On a POSIX host the \<open>file:///\<close> form of an absolute path does not resolve to the
  payload of the bare path: \<open>localFileToBase64Url\<close> removes eight code units, so the slash
  that starts the path goes with the scheme and the file system is asked for a relative
  path. The bare path \<open>/tmp/a.png\<close> gives the \<open>base64://\<close> payload of the file; its URI
  gives \<open>null\<close>. For a path that does not start with a slash, such as a Windows drive
  path, both URI spellings resolve as the bare path does (lemmas \<open>file_uri_three_slashes\<close>
  and \<open>file_uri_two_slashes\<close>).
\<close>

theorem posix_file_uri_not_resolved:
  "localFileToBase64Url posix_host (asc ''/tmp/a.png'') = Some (asc ''base64://iVBO'')
   \<and> normalize_local_path (path_sep posix_host) (asc ''file:///tmp/a.png'') = asc ''tmp/a.png''
   \<and> localFileToBase64Url posix_host (asc ''file:///tmp/a.png'') = None"
  by (simp add: localFileToBase64Url_def normalize_local_path_def replace_slashes_def
        posix_host_def no_files_def startsWith_def asc_def b64_char_def)
section \<open>Properties of the outbound RPC layer\<close>

lemma callOneBotApi_trace: "snd (callOneBotApi gw call trace) = trace @ [call]"
  by (simp add: callOneBotApi_def)

lemma callOneBotApi_no_invalid: "fst (callOneBotApi gw call trace) \<noteq> Inl InvalidMessageParams"
  by (simp add: callOneBotApi_def split: option.splits)

text \<open>
  C10. \<open>sendMsg\<close> throws \<open>Invalid message params\<close> exactly when the message type is private
  and \<open>userId\<close> is missing or 0, or the message type is group and \<open>groupId\<close> is missing or
  0; exactly then it makes no HTTP call (the trace is unchanged), and otherwise it makes
  one call. In particular a private send with \<open>userId\<close> 0 is rejected, whatever the
  group id.
\<close>

theorem sendMsg_invalid_params:
  "(fst (sendMsg gw params trace) = Inl InvalidMessageParams)
     = ((messageType params = Private \<and> (userId params = None \<or> userId params = Some 0))
        \<or> (messageType params = Group \<and> (groupId params = None \<or> groupId params = Some 0)))
   \<and> (snd (sendMsg gw params trace) = trace)
     = ((messageType params = Private \<and> (userId params = None \<or> userId params = Some 0))
        \<or> (messageType params = Group \<and> (groupId params = None \<or> groupId params = Some 0)))
   \<and> (\<exists>call. snd (sendMsg gw params trace) = trace @ [call])
     = (\<not> ((messageType params = Private \<and> (userId params = None \<or> userId params = Some 0))
        \<or> (messageType params = Group \<and> (groupId params = None \<or> groupId params = Some 0))))
   \<and> sendMsg gw \<lparr>messageType = Private, userId = Some 0, groupId = g, message = m\<rparr> trace
       = (Inl InvalidMessageParams, trace)"
  by (cases "messageType params"; cases "userId params"; cases "groupId params")
     (auto simp: sendMsg_def Let_def truthy_num_def sendPrivateMsg_def sendGroupMsg_def
                 callOneBotApi_def split: option.splits)

theorem sendMsg_invalid_params_witness:
  "fst (sendMsg (\<lambda>t c. Some \<lparr>status = Ok, retcode = 0\<rparr>)
          \<lparr>messageType = Private, userId = None, groupId = Some 7,
           message = MsgString [104, 105]\<rparr> [])
     = Inl InvalidMessageParams
   \<and> snd (sendMsg (\<lambda>t c. Some \<lparr>status = Ok, retcode = 0\<rparr>)
          \<lparr>messageType = Group, userId = None, groupId = Some 7,
           message = MsgString [104, 105]\<rparr> [])
     = [Send_group_msg 7 [SegText [104, 105]]]"
  using sendMsg_invalid_params [of "\<lambda>t c. Some \<lparr>status = Ok, retcode = 0\<rparr>"
          "\<lparr>messageType = Private, userId = None, groupId = Some 7,
            message = MsgString [104, 105]\<rparr>" "[]"]
  by (simp add: sendMsg_def Let_def truthy_num_def sendGroupMsg_def callOneBotApi_def
                as_segments_def)
section \<open>Properties of inbound processing\<close>

lemma not_space_at: "\<not> js_space 64"
  by (simp add: js_space_def)

lemma has_mention_token_iff:
  "has_mention_token s \<longleftrightarrow> (\<exists>pre d post. s = pre @ 64 # d # post \<and> \<not> js_space d)"
proof (induction s rule: has_mention_token.induct)
  case 1
  show ?case by simp
next
  case (2 c)
  show ?case by (auto simp: Cons_eq_append_conv)
next
  case (3 c d cs)
  show ?case
  proof
    assume "has_mention_token (c # d # cs)"
    then consider "c = 64 \<and> \<not> js_space d" | "has_mention_token (d # cs)" by auto
    then show "\<exists>pre e post. c # d # cs = pre @ 64 # e # post \<and> \<not> js_space e"
    proof cases
      case 1
      then show ?thesis by (intro exI[of _ "[]"] exI[of _ d] exI[of _ cs]) simp
    next
      case 2
      with 3 obtain pre e post where "d # cs = pre @ 64 # e # post" "\<not> js_space e" by blast
      then show ?thesis by (intro exI[of _ "c # pre"] exI[of _ e] exI[of _ post]) simp
    qed
  next
    assume "\<exists>pre e post. c # d # cs = pre @ 64 # e # post \<and> \<not> js_space e"
    then obtain pre e post where p: "c # d # cs = pre @ 64 # e # post" "\<not> js_space e" by blast
    show "has_mention_token (c # d # cs)"
    proof (cases pre)
      case Nil
      with p show ?thesis by simp
    next
      case (Cons a pre')
      with p have "d # cs = pre' @ 64 # e # post" by simp
      with p(2) 3 have "has_mention_token (d # cs)" by blast
      then show ?thesis by simp
    qed
  qed
qed

lemma has_mention_token_sublist:
  "has_mention_token s \<Longrightarrow> has_mention_token (a @ s @ b)"
proof -
  assume "has_mention_token s"
  then obtain pre d post where "s = pre @ 64 # d # post" "\<not> js_space d"
    unfolding has_mention_token_iff by blast
  then have "a @ s @ b = (a @ pre) @ 64 # d # (post @ b)" "\<not> js_space d" by simp_all
  then show ?thesis unfolding has_mention_token_iff by blast
qed

lemma trim_decompose: "\<exists>a b. s = a @ trim s @ b"
proof -
  let ?d = "dropWhile js_space s"
  have "s = takeWhile js_space s @ ?d" by simp
  moreover have "rev ?d = takeWhile js_space (rev ?d) @ dropWhile js_space (rev ?d)" by simp
  then have "?d = rev (dropWhile js_space (rev ?d)) @ rev (takeWhile js_space (rev ?d))"
    by (metis rev_append rev_rev_ident)
  ultimately have "s = takeWhile js_space s @ trim s @ rev (takeWhile js_space (rev ?d))"
    by (simp add: trim_def)
  then show ?thesis by blast
qed

lemma no_token_trim: "\<not> has_mention_token s \<Longrightarrow> \<not> has_mention_token (trim s)"
proof -
  obtain a b where "s = a @ trim s @ b" using trim_decompose by blast
  then show "\<not> has_mention_token s \<Longrightarrow> \<not> has_mention_token (trim s)"
    using has_mention_token_sublist[of "trim s" a b] by auto
qed

lemma strip_mentions_match:
  "c = 64 \<and> (case cs of [] \<Rightarrow> False | d # _ \<Rightarrow> \<not> js_space d) \<Longrightarrow>
   strip_mentions (c # cs) = strip_mentions (dropWhile js_space (dropWhile (\<lambda>d. \<not> js_space d) cs))"
  unfolding strip_mentions.simps(2)[of c cs] by (rule if_P)

lemma strip_mentions_keep:
  "\<not> (c = 64 \<and> (case cs of [] \<Rightarrow> False | d # _ \<Rightarrow> \<not> js_space d)) \<Longrightarrow>
   strip_mentions (c # cs) = c # strip_mentions cs"
  unfolding strip_mentions.simps(2)[of c cs] by (rule if_not_P)

lemma strip_mentions_head:
  "js_space d \<Longrightarrow> strip_mentions (d # cs) = d # strip_mentions cs"
  using not_space_at by (intro strip_mentions_keep) auto

lemma no_token_strip: "\<not> has_mention_token (strip_mentions s)"
proof (induction s rule: strip_mentions.induct)
  case 1
  show ?case by (simp add: strip_mentions.simps(1))
next
  case (2 c cs)
  show ?case
  proof (cases "c = 64 \<and> (case cs of [] \<Rightarrow> False | d # _ \<Rightarrow> \<not> js_space d)")
    case True
    from "2.IH"(1)[OF True] show ?thesis unfolding strip_mentions_match[OF True] .
  next
    case False
    note s = strip_mentions_keep[OF False]
    note ih = "2.IH"(2)[OF False]
    show ?thesis
    proof (cases "strip_mentions cs")
      case Nil
      with s show ?thesis by simp
    next
      case (Cons e es)
      have "\<not> (c = 64 \<and> \<not> js_space e)"
      proof
        assume a: "c = 64 \<and> \<not> js_space e"
        with False have "case cs of [] \<Rightarrow> True | d # _ \<Rightarrow> js_space d" by (cases cs) auto
        moreover from Cons have "cs \<noteq> []" by (auto simp: strip_mentions.simps(1))
        ultimately obtain d cs' where cs: "cs = d # cs'" "js_space d" by (cases cs) auto
        with Cons have "e = d" by (simp add: strip_mentions_head)
        with a cs show False by simp
      qed
      with s Cons ih show ?thesis by simp
    qed
  qed
qed

lemma subseq_strip: "subseq (strip_mentions s) s"
proof (induction s rule: strip_mentions.induct)
  case 1
  show ?case by (simp add: strip_mentions.simps(1))
next
  case (2 c cs)
  show ?case
  proof (cases "c = 64 \<and> (case cs of [] \<Rightarrow> False | d # _ \<Rightarrow> \<not> js_space d)")
    case True
    let ?r = "dropWhile js_space (dropWhile (\<lambda>d. \<not> js_space d) cs)"
    from "2.IH"(1)[OF True] have "subseq (strip_mentions ?r) ?r" .
    moreover have "suffix ?r cs"
      by (meson suffix_dropWhile suffix_order.trans)
    then have "subseq ?r (c # cs)"
      by (meson sublist_imp_subseq suffix_imp_sublist subseq_order.trans list_emb_Cons
            subseq_order.order_refl)
    ultimately have "subseq (strip_mentions ?r) (c # cs)" by (rule subseq_order.trans)
    then show ?thesis unfolding strip_mentions_match[OF True] .
  next
    case False
    from "2.IH"(2)[OF False] show ?thesis by (simp add: strip_mentions_keep[OF False])
  qed
qed

lemma subseq_trim: "subseq (trim s) s"
proof -
  obtain a b where "s = a @ trim s @ b" using trim_decompose by blast
  then have "sublist (trim s) s" unfolding sublist_def by blast
  then show ?thesis by (rule sublist_imp_subseq)
qed

lemma strip_mentions_no_at: "64 \<notin> set s \<Longrightarrow> strip_mentions s = s"
proof (induction s)
  case Nil
  show ?case by (simp add: strip_mentions.simps(1))
next
  case (Cons c cs)
  then have "\<not> (c = 64 \<and> (case cs of [] \<Rightarrow> False | d # _ \<Rightarrow> \<not> js_space d))" by simp
  from strip_mentions_keep[OF this] Cons show ?case by simp
qed

lemmas inbound_eval =
  processOneBotMessage_def raw_body_of_def body_with_files_def was_mentioned_def
  materialize_all_def materialize_def extractTextFromMessage_def group_gate_def
  requireMention_of_def effective_group_config_def isAtUser_def id_to_string_def
  show_int_small show_int_small_neg show_nat.simps truthy_id_def opt_int_to_string_def trim_def js_space_def
  strip_mentions.simps accepted_body_def group_open_config_def group_event_def
  private_event_def no_files_def asc_def Let_def plain_media_def url_or_file_def
  startsWith_def is_drive_path_def is_ascii_letter_def placeholder_def hasMedia_of_def

lemma materialized_needs_media: "hasMedia_of h event \<Longrightarrow> extractMediaFromMessage (ev_message event) \<noteq> []"
  by (auto simp: hasMedia_of_def materialize_all_def)

lemma placeholder_nonempty: "placeholder m \<noteq> []"
  by (simp add: placeholder_def asc_def)

lemma join_nonempty: "xs \<noteq> [] \<Longrightarrow> \<forall>x\<in>set xs. x \<noteq> [] \<Longrightarrow> join sep xs \<noteq> []"
  by (induction sep xs rule: join.induct) auto

lemma placeholders_nonempty:
  "ms \<noteq> [] \<Longrightarrow> join sep (map placeholder ms) \<noteq> []"
  by (rule join_nonempty) (auto simp: placeholder_nonempty)

lemma group_gate_None:
  "group_gate cfg event m = None \<longleftrightarrow>
     groupPolicy cfg \<noteq> Some PolicyDisabled
     \<and> (groupPolicy cfg = Some PolicyOpen \<or> effective_group_config cfg (group_id event) \<noteq> None)
     \<and> (\<forall>gc. effective_group_config cfg (group_id event) = Some gc \<longrightarrow> enabled gc \<noteq> Some False)
     \<and> (requireMention_of cfg event \<longrightarrow> m)"
proof (cases "groupPolicy cfg")
  case None
  then show ?thesis
    by (cases "effective_group_config cfg (group_id event)") (auto simp: group_gate_def Let_def)
next
  case (Some p)
  then show ?thesis
    by (cases p; cases "effective_group_config cfg (group_id event)")
       (auto simp: group_gate_def Let_def)
qed

lemma process_dispatched_iff:
  "(\<exists>ctx. processOneBotMessage h cfg event = Dispatched ctx) \<longleftrightarrow>
     (raw_body_of h cfg event \<noteq> [] \<or> hasMedia_of h event)
     \<and> (message_type event = Group \<longrightarrow> group_gate cfg event (was_mentioned cfg event) = None)"
  by (auto simp: processOneBotMessage_def Let_def split: option.splits)

lemma accepted_body_Some:
  "accepted_body out = Some b \<longleftrightarrow> (\<exists>ctx. out = Dispatched ctx \<and> RawBody ctx = b)"
  by (cases out) (auto simp: accepted_body_def)

subsection \<open>The policy gate for group events\<close>

text \<open>
  C1, as amended. \<open>processOneBotMessage\<close>, handed a group message event, reaches the
  envelope and the dispatcher exactly when the group policy is not \<open>disabled\<close>, an
  effective group configuration exists unless the policy is \<open>open\<close>, that configuration
  does not disable the group, the bot was mentioned if a mention is required, and there
  is something to deliver: the body is not empty after the mentions are stripped, or some
  media item was materialised to a local path. \<open>handleOneBotWebhook\<close> itself never hands a
  group event to \<open>processOneBotMessage\<close>: it fails for want of a runtime, answers that the
  plugin is not enabled, or acknowledges the event and ignores it.
\<close>

theorem group_event_dispatched:
  assumes "message_type event = Group"
  shows "((\<exists>ctx. processOneBotMessage h cfg event = Dispatched ctx)
          \<longleftrightarrow> groupPolicy cfg \<noteq> Some PolicyDisabled
              \<and> (groupPolicy cfg = Some PolicyOpen
                  \<or> effective_group_config cfg (group_id event) \<noteq> None)
              \<and> (\<forall>gc. effective_group_config cfg (group_id event) = Some gc
                       \<longrightarrow> enabled gc \<noteq> Some False)
              \<and> (requireMention_of cfg event \<longrightarrow> was_mentioned cfg event)
              \<and> (raw_body_of h cfg event \<noteq> [] \<or> hasMedia_of h event))
         \<and> (handleOneBotWebhook h rt ocfg (Some (MessageEvent event)) = RuntimeNotInitialized
             \<or> handleOneBotWebhook h rt ocfg (Some (MessageEvent event)) = NotEnabled
             \<or> handleOneBotWebhook h rt ocfg (Some (MessageEvent event)) = IgnoredGroupMessage)"
proof
  show "(\<exists>ctx. processOneBotMessage h cfg event = Dispatched ctx)
          \<longleftrightarrow> groupPolicy cfg \<noteq> Some PolicyDisabled
              \<and> (groupPolicy cfg = Some PolicyOpen
                  \<or> effective_group_config cfg (group_id event) \<noteq> None)
              \<and> (\<forall>gc. effective_group_config cfg (group_id event) = Some gc
                       \<longrightarrow> enabled gc \<noteq> Some False)
              \<and> (requireMention_of cfg event \<longrightarrow> was_mentioned cfg event)
              \<and> (raw_body_of h cfg event \<noteq> [] \<or> hasMedia_of h event)"
    unfolding process_dispatched_iff group_gate_None using assms by blast
  show "handleOneBotWebhook h rt ocfg (Some (MessageEvent event)) = RuntimeNotInitialized
             \<or> handleOneBotWebhook h rt ocfg (Some (MessageEvent event)) = NotEnabled
             \<or> handleOneBotWebhook h rt ocfg (Some (MessageEvent event)) = IgnoredGroupMessage"
    using assms by (simp add: handleOneBotWebhook_def split: option.splits)
qed

theorem group_event_dispatched_witness:
  "(\<exists>ctx. processOneBotMessage no_files group_open_config
            (group_event [SegAt (asc ''42''), SegText (asc ''hello'')]) = Dispatched ctx)
   \<and> handleOneBotWebhook no_files True (Some group_open_config)
        (Some (MessageEvent (group_event [SegAt (asc ''42''), SegText (asc ''hello'')])))
      = IgnoredGroupMessage"
proof -
  let ?ev = "group_event [SegAt (asc ''42''), SegText (asc ''hello'')]"
  have g: "message_type ?ev = Group" by (simp add: group_event_def)
  have c: "groupPolicy group_open_config = Some PolicyOpen"
    "effective_group_config group_open_config (group_id ?ev) = None"
    "was_mentioned group_open_config ?ev"
    "raw_body_of no_files group_open_config ?ev \<noteq> []"
    by (simp_all add: inbound_eval)
  have e: "cfg_enabled group_open_config = Some True" by (simp add: group_open_config_def)
  from group_event_dispatched [OF g, of no_files group_open_config True "Some group_open_config"] c
  have "\<exists>ctx. processOneBotMessage no_files group_open_config ?ev = Dispatched ctx" by simp
  moreover have "handleOneBotWebhook no_files True (Some group_open_config) (Some (MessageEvent ?ev))
                   = IgnoredGroupMessage"
    using g e by (simp add: handleOneBotWebhook_def)
  ultimately show ?thesis by blast
qed

text \<open>
  The claim as stated fails twice. A group event that meets every condition of the claim
  is acknowledged and ignored by the webhook handler; and \<open>processOneBotMessage\<close> itself
  skips a group event that meets them all but carries nothing except the mention.
\<close>

theorem group_event_counterexample:
  "handleOneBotWebhook no_files True (Some group_open_config)
      (Some (MessageEvent (group_event [SegAt (asc ''42''), SegText (asc ''hello'')])))
     = IgnoredGroupMessage
   \<and> processOneBotMessage no_files group_open_config (group_event [SegAt (asc ''42'')])
     = Skipped EmptyMessage"
  by (simp add: handleOneBotWebhook_def inbound_eval)

subsection \<open>Mention stripping\<close>

text \<open>
  C3, as amended. When the bot was mentioned in a group event (whether or not a mention
  was required) and the event is dispatched with a body of its own, that body is the text
  (with the notes of attached files) from which every \<open>@\<close> followed by something other than
  white space has been deleted, wherever it stands, together with the run of such code
  units and the white space after it, and which has then been trimmed. No such token is
  left in the body, what is left keeps its order, and a text without \<open>@\<close> is only trimmed.
\<close>

theorem mentions_stripped_everywhere:
  assumes "was_mentioned cfg event"
    and "processOneBotMessage h cfg event = Dispatched ctx"
    and "raw_body_of h cfg event \<noteq> []"
  shows "RawBody ctx = trim (strip_mentions (body_with_files h event))
         \<and> \<not> has_mention_token (RawBody ctx)
         \<and> subseq (RawBody ctx) (body_with_files h event)
         \<and> (64 \<notin> set (body_with_files h event) \<longrightarrow> RawBody ctx = trim (body_with_files h event))"
proof -
  from assms(2,3) have "RawBody ctx = raw_body_of h cfg event"
    by (auto simp: processOneBotMessage_def Let_def split: option.splits if_splits)
  with assms(1) have b: "RawBody ctx = trim (strip_mentions (body_with_files h event))"
    by (simp add: raw_body_of_def)
  have "\<not> has_mention_token (trim (strip_mentions (body_with_files h event)))"
    by (rule no_token_trim) (rule no_token_strip)
  moreover have "subseq (trim (strip_mentions (body_with_files h event))) (body_with_files h event)"
    by (meson subseq_trim subseq_strip subseq_order.trans)
  ultimately show ?thesis using b by (simp add: strip_mentions_no_at)
qed

theorem mentions_stripped_everywhere_witness:
  "was_mentioned group_open_config
      (group_event [SegAt (asc ''42''), SegText (asc ''@bot hi @bob there'')])
   \<and> accepted_body (processOneBotMessage no_files group_open_config
        (group_event [SegAt (asc ''42''), SegText (asc ''@bot hi @bob there'')]))
      = Some (asc ''hi there'')
   \<and> \<not> has_mention_token (asc ''hi there'')"
proof -
  let ?ev = "group_event [SegAt (asc ''42''), SegText (asc ''@bot hi @bob there'')]"
  have w: "was_mentioned group_open_config ?ev" by (simp add: inbound_eval)
  have n: "raw_body_of no_files group_open_config ?ev \<noteq> []" by (simp add: inbound_eval)
  have "accepted_body (processOneBotMessage no_files group_open_config ?ev)
          = Some (asc ''hi there'')"
    by (simp add: inbound_eval)
  then obtain ctx where d: "processOneBotMessage no_files group_open_config ?ev = Dispatched ctx"
    and b: "RawBody ctx = asc ''hi there''"
    unfolding accepted_body_Some by blast
  from mentions_stripped_everywhere [OF w d n]
  have "\<not> has_mention_token (RawBody ctx)" by blast
  then have "\<not> has_mention_token (asc ''hi there'')" unfolding b .
  moreover have "accepted_body (processOneBotMessage no_files group_open_config ?ev)
                   = Some (asc ''hi there'')"
    using d b by (simp add: accepted_body_def)
  ultimately show ?thesis using w by blast
qed

text \<open>
  The claim as stated fails on a token that is not at the start: it is deleted as well.
\<close>

theorem mention_not_leading_counterexample:
  "accepted_body (processOneBotMessage no_files group_open_config
      (group_event [SegAt (asc ''42''), SegText (asc ''hi @bob there'')]))
     = Some (asc ''hi there'')
   \<and> accepted_body (processOneBotMessage no_files group_open_config
      (group_event [SegAt (asc ''42''), SegText (asc ''hi @bob there'')]))
     \<noteq> Some (asc ''hi @bob there'')"
  by (simp add: inbound_eval)

subsection \<open>Media without text\<close>

text \<open>
  C4, as amended. When the body is empty (no text, no file notes, or nothing left after
  the mentions are stripped) and at least one media item was materialised to a local path,
  the event is not skipped as empty; a private event is dispatched; and the body of a
  dispatched event is one placeholder per extracted media item, whether that item was
  materialised or not, joined by single spaces, and is not empty.
\<close>

theorem media_only_body:
  assumes "raw_body_of h cfg event = []" and "hasMedia_of h event"
  shows "processOneBotMessage h cfg event \<noteq> Skipped EmptyMessage
         \<and> (message_type event = Private
              \<longrightarrow> (\<exists>ctx. processOneBotMessage h cfg event = Dispatched ctx))
         \<and> (\<forall>ctx. processOneBotMessage h cfg event = Dispatched ctx
              \<longrightarrow> RawBody ctx
                    = join (asc '' '') (map placeholder (extractMediaFromMessage (ev_message event)))
                  \<and> RawBody ctx \<noteq> [])"
proof (intro conjI allI impI)
  have g: "group_gate cfg event m \<noteq> Some EmptyMessage" for m
    by (simp add: group_gate_def Let_def)
  show "processOneBotMessage h cfg event \<noteq> Skipped EmptyMessage"
    using assms g[of "was_mentioned cfg event"]
    by (auto simp: processOneBotMessage_def Let_def split: option.splits)
  show "\<exists>ctx. processOneBotMessage h cfg event = Dispatched ctx" if "message_type event = Private"
    unfolding process_dispatched_iff using assms that by simp
  fix ctx
  assume d: "processOneBotMessage h cfg event = Dispatched ctx"
  with assms show b: "RawBody ctx
      = join (asc '' '') (map placeholder (extractMediaFromMessage (ev_message event)))"
    by (auto simp: processOneBotMessage_def Let_def split: option.splits if_splits)
  from assms(2) have "extractMediaFromMessage (ev_message event) \<noteq> []"
    by (rule materialized_needs_media)
  then show "RawBody ctx \<noteq> []" unfolding b by (rule placeholders_nonempty)
qed

theorem media_only_body_witness:
  "accepted_body (processOneBotMessage posix_host group_open_config
      (private_event [SegImage (asc ''/tmp/a.png'') None,
                      SegVideo (asc ''v.mp4'') (Some (asc ''http://h/v.mp4''))]))
     = Some (asc ''<media:image> <media:video>'')"
proof -
  let ?ev = "private_event [SegImage (asc ''/tmp/a.png'') None,
                            SegVideo (asc ''v.mp4'') (Some (asc ''http://h/v.mp4''))]"
  have r: "raw_body_of posix_host group_open_config ?ev = []"
    by (simp add: inbound_eval posix_host_def)
  have m: "hasMedia_of posix_host ?ev"
    by (simp add: inbound_eval posix_host_def)
  have p: "message_type ?ev = Private" by (simp add: private_event_def)
  from media_only_body [OF r m] p obtain ctx where
    d: "processOneBotMessage posix_host group_open_config ?ev = Dispatched ctx"
    and b: "RawBody ctx = join (asc '' '') (map placeholder (extractMediaFromMessage (ev_message ?ev)))"
    by blast
  have "join (asc '' '') (map placeholder (extractMediaFromMessage (ev_message ?ev)))
          = asc ''<media:image> <media:video>''"
    by (simp add: private_event_def plain_media_def url_or_file_def placeholder_def asc_def)
  with d b show ?thesis by (simp add: accepted_body_def)
qed

text \<open>
  The claim as stated fails when no item reaches a local path: a private event whose only
  segment is an image that cannot be downloaded has an extracted media item and no text,
  and is skipped as empty.
\<close>

theorem media_without_path_counterexample:
  "extractMediaFromMessage [SegImage (asc ''a.png'') (Some (asc ''http://h/a.png''))] \<noteq> []
   \<and> extractTextFromMessage [SegImage (asc ''a.png'') (Some (asc ''http://h/a.png''))] = []
   \<and> processOneBotMessage no_files group_open_config
        (private_event [SegImage (asc ''a.png'') (Some (asc ''http://h/a.png''))])
      = Skipped EmptyMessage"
  by (simp add: inbound_eval)

end
